theory Spec2Isabelle
  imports Complex_Main "HOL-Library.List_Lexorder" "HOL-Library.Product_Lexorder"
    "HOL-Library.Multiset"
begin

section \<open>Python values used by the research pipeline\<close>

text \<open>
  A Python \<open>str\<close> is a sequence of Unicode code points; \<open>len\<close> counts code points and
  comparison is lexicographic on code points. Strings are therefore lists of code points,
  ordered by the lexicographic order on lists. \<open>py\<close> writes an ASCII literal.
\<close>

type_synonym pystr = "nat list"

definition py :: "string \<Rightarrow> pystr" where
  "py cs = map of_char cs"

text \<open>
  \<open>str.lower\<close>: the ASCII letters are folded. Code points outside ASCII are left as they
  are: the Unicode case table is outside this development, and the general results below
  do not depend on which function \<open>lower\<close> is.
\<close>

definition lower_cp :: "nat \<Rightarrow> nat" where
  "lower_cp c = (if 65 \<le> c \<and> c \<le> 90 then c + 32 else c)"

definition lower :: "pystr \<Rightarrow> pystr" where
  "lower t = map lower_cp t"

text \<open>\<open>str.isspace\<close> on one code point, which is also what \<open>\s\<close> matches in a str pattern.\<close>

definition isspace :: "nat \<Rightarrow> bool" where
  "isspace c \<longleftrightarrow>
     (9 \<le> c \<and> c \<le> 13) \<or> (28 \<le> c \<and> c \<le> 32) \<or> c = 133 \<or> c = 160 \<or> c = 5760 \<or>
     (8192 \<le> c \<and> c \<le> 8202) \<or> c = 8232 \<or> c = 8233 \<or> c = 8239 \<or> c = 8287 \<or> c = 12288"

text \<open>\<open>\d\<close> in a pattern, taken as the ASCII digits.\<close>

definition isdigit :: "nat \<Rightarrow> bool" where
  "isdigit c \<longleftrightarrow> 48 \<le> c \<and> c \<le> 57"

definition strip :: "pystr \<Rightarrow> pystr" where
  "strip t = rev (dropWhile isspace (rev (dropWhile isspace t)))"

text \<open>\<open>needle in hay\<close> for strings: some suffix of \<open>hay\<close> starts with \<open>needle\<close>.\<close>

fun contains :: "pystr \<Rightarrow> pystr \<Rightarrow> bool" where
  "contains [] needle = (needle = [])"
| "contains (c # cs) needle =
     (take (length needle) (c # cs) = needle \<or> contains cs needle)"

definition startswith :: "pystr \<Rightarrow> pystr \<Rightarrow> bool" where
  "startswith t p \<longleftrightarrow> take (length p) t = p"

text \<open>
  \<open>str.splitlines\<close>: a line ends at a line feed, carriage return (with a following line
  feed taken with it), vertical tab, form feed, file, group or record separator, next line,
  line separator or paragraph separator; there is no empty last line.
\<close>

definition is_linebreak :: "nat \<Rightarrow> bool" where
  "is_linebreak c \<longleftrightarrow>
     (10 \<le> c \<and> c \<le> 13) \<or> (28 \<le> c \<and> c \<le> 30) \<or> c = 133 \<or> c = 8232 \<or> c = 8233"

fun splitlines_from :: "pystr \<Rightarrow> pystr \<Rightarrow> pystr list" where
  "splitlines_from cur [] = (if cur = [] then [] else [cur])"
| "splitlines_from cur [c] = (if is_linebreak c then [cur] else [cur @ [c]])"
| "splitlines_from cur (c # d # cs) =
     (if c = 13 \<and> d = 10 then cur # splitlines_from [] cs
      else if is_linebreak c then cur # splitlines_from [] (d # cs)
      else splitlines_from (cur @ [c]) (d # cs))"

definition splitlines :: "pystr \<Rightarrow> pystr list" where
  "splitlines t = splitlines_from [] t"

text \<open>Decimal rendering of a non-negative integer (\<open>str(n)\<close>, \<open>f"{n}"\<close>).\<close>

fun str_nat :: "nat \<Rightarrow> pystr" where
  "str_nat n = (if n < 10 then [48 + n] else str_nat (n div 10) @ [48 + n mod 10])"

declare str_nat.simps [simp del]

text \<open>The exceptions that the modelled code raises or lets through.\<close>

datatype py_error =
    ValueError pystr
  | RuntimeError pystr
  | SystemExit pystr
  | TimeoutExpired
  | OSError

section \<open>research\_common.py\<close>

text \<open>\<open>clean_whitespace\<close>: \<open>re.sub(r"\s+", " ", text).strip()\<close>.\<close>

function sub_spaces :: "pystr \<Rightarrow> pystr" where
  "sub_spaces [] = []"
| "sub_spaces (c # cs) =
     (if isspace c then 32 # sub_spaces (dropWhile isspace cs) else c # sub_spaces cs)"
  by pat_completeness auto
termination
  by (relation "measure length") (auto simp: le_imp_less_Suc length_dropWhile_le)

definition clean_whitespace :: "pystr \<Rightarrow> pystr" where
  "clean_whitespace t = strip (sub_spaces t)"

text \<open>
  \<open>chunked\<close>: \<open>range(0, len(items), size)\<close> is the list of the multiples of \<open>size\<close> below
  \<open>len(items)\<close>, and each index yields the slice \<open>items[idx : idx + size]\<close>.
\<close>

definition range_step :: "nat \<Rightarrow> nat \<Rightarrow> nat list" where
  "range_step n step = map (\<lambda>k. k * step) [0 ..< (n + step - 1) div step]"

definition chunked :: "'a list \<Rightarrow> int \<Rightarrow> py_error + 'a list list" where
  "chunked items sz =
     (if sz \<le> 0 then Inl (ValueError (py ''chunk size must be > 0''))
      else Inr (map (\<lambda>idx. take (nat sz) (drop idx items))
                    (range_step (length items) (nat sz))))"

text \<open>
  \<open>parse_pdfinfo_pages\<close>: \<open>re.search(r"^Pages:\s*(\d+)", stdout, re.MULTILINE)\<close>. A match
  starts at the beginning of the text or after a line feed; the first position that
  matches gives the number.
\<close>

definition int_of_digits :: "pystr \<Rightarrow> nat" where
  "int_of_digits ds = foldl (\<lambda>a d. 10 * a + (d - 48)) 0 ds"

definition pages_match :: "pystr \<Rightarrow> nat option" where
  "pages_match t =
     (if startswith t (py ''Pages:'')
      then (let ds = takeWhile isdigit (dropWhile isspace (drop 6 t))
            in if ds = [] then None else Some (int_of_digits ds))
      else None)"

fun pages_search :: "bool \<Rightarrow> pystr \<Rightarrow> nat option" where
  "pages_search at_start [] = (if at_start then pages_match [] else None)"
| "pages_search at_start (c # cs) =
     (case (if at_start then pages_match (c # cs) else None) of
        Some n \<Rightarrow> Some n
      | None \<Rightarrow> pages_search (c = 10) cs)"

definition parse_pdfinfo_pages :: "pystr \<Rightarrow> nat option" where
  "parse_pdfinfo_pages pdfinfo_stdout = pages_search True pdfinfo_stdout"

section \<open>The file system and the external commands\<close>

text \<open>
  A path is the list of its components from the root. The file system is the set of
  directories and the set of regular files that exist; what the files hold is returned
  by the functions that write them. The copy into a staging directory may fail, which is an
  outcome of its own, and so may the creation of a directory, which \<open>mkdir_blocked\<close>
  tells; the other file-system calls are followed on the runs where they succeed.
\<close>

type_synonym path = "pystr list"

definition str_path :: "path \<Rightarrow> pystr" where
  "str_path p = concat (map (\<lambda>c. 47 # c) p)"

record fs =
  dirs :: "path set"
  files :: "path set"

definition path_exists :: "fs \<Rightarrow> path \<Rightarrow> bool" where
  "path_exists s p \<longleftrightarrow> p \<in> dirs s \<or> p \<in> files s"

definition under :: "path \<Rightarrow> path \<Rightarrow> bool" where
  "under d p \<longleftrightarrow> take (length d) p = d"

text \<open>
  \<open>ensure_dir\<close>: \<open>path.mkdir(parents=True, exist_ok=True)\<close>. The call raises
  \<open>FileExistsError\<close> when the path is a regular file and \<open>NotADirectoryError\<close> when one of
  its ancestors is (both are \<open>OSError\<close>), and then creates nothing: this is
  \<open>mkdir_blocked\<close>. Otherwise it leaves the file system \<open>ensure_dir p s\<close>, in which the
  path and all its ancestors are directories.
\<close>

definition mkdir_blocked :: "fs \<Rightarrow> path \<Rightarrow> bool" where
  "mkdir_blocked s p \<longleftrightarrow> list_ex (\<lambda>n. take n p \<in> files s) [0 ..< Suc (length p)]"



definition ensure_dir :: "path \<Rightarrow> fs \<Rightarrow> fs" where
  "ensure_dir p s = s\<lparr>dirs := dirs s \<union> set (map (\<lambda>n. take n p) [0 ..< Suc (length p)])\<rparr>"

text \<open>\<open>shutil.rmtree(d, ignore_errors=True)\<close>: the directory and all below it go.\<close>

definition rmtree :: "path \<Rightarrow> fs \<Rightarrow> fs" where
  "rmtree d s = s\<lparr>dirs := Set.filter (\<lambda>p. \<not> under d p) (dirs s),
                  files := Set.filter (\<lambda>p. \<not> under d p) (files s)\<rparr>"

text \<open>\<open>json_dump\<close>, as far as the file system goes: the parent exists and the file is written.\<close>

definition json_dump :: "path \<Rightarrow> fs \<Rightarrow> fs" where
  "json_dump p s = (let s1 = ensure_dir (butlast p) s in s1\<lparr>files := insert p (files s1)\<rparr>)"

text \<open>
  \<open>relative_repo_path\<close>: the path relative to the repository root, or the path as it is
  when it does not lie below the root.
\<close>

definition relative_repo_path :: "path \<Rightarrow> path \<Rightarrow> pystr" where
  "relative_repo_path p repo_root =
     (if under repo_root p
      then (case drop (length repo_root) p of
              [] \<Rightarrow> py ''.''
            | c # cs \<Rightarrow> c @ concat (map (\<lambda>x. 47 # x) cs))
      else str_path p)"

text \<open>A row of the image listing, as \<open>parse_pdfimages_list\<close> builds it (the fields read here).\<close>

record image_row =
  row_page :: int
  row_num :: int
  row_type :: pystr
  row_width :: int
  row_height :: int

text \<open>An image file written by \<open>pdfimages -png\<close>: name, number, size and SHA-1 digest.\<close>

record raw_image =
  raw_name :: pystr
  raw_index :: int
  raw_size :: int
  raw_sha1 :: pystr

text \<open>
  \<open>subprocess.run\<close> with a timeout either raises \<open>TimeoutExpired\<close> or completes with an
  exit code and the captured output. \<open>run_command\<close> lets the exception through.
\<close>

record CommandResult =
  code :: int
  stdout :: pystr
  stderr :: pystr

datatype proc_outcome = Expired | Completed CommandResult

text \<open>
  What surrounds a run: the behaviour of the external commands on a command line, the
  outcome of a copy (\<open>None\<close> when it succeeds, the text of the exception otherwise), the
  digest function of \<open>hashlib\<close>, the readings of the clock, and the name under which
  \<open>probe_extractability\<close> stages a file (the ASCII part of its stem with the suffix
  \<open>.pdf\<close>, numbered until no such file exists in the staging directory). For the
  extraction run: whether \<open>pdftotext\<close> writes its output file for a PDF, the text read back
  from a text file, the rows that \<open>parse_pdfimages_list\<close> reads from an image listing, the
  image files that \<open>pdfimages -png\<close> writes for a PDF, and the page images (name and size)
  that \<open>pdftoppm\<close> writes for a PDF and a page limit.
\<close>

record env =
  proc :: "pystr list \<Rightarrow> proc_outcome"
  copy2 :: "path \<Rightarrow> path \<Rightarrow> pystr option"
  sha256_hex :: "nat list \<Rightarrow> pystr"
  utc_now_iso :: "nat \<Rightarrow> pystr"
  stage_name :: "pystr \<Rightarrow> fs \<Rightarrow> pystr"
  pdftotext_writes :: "path \<Rightarrow> bool"
  read_text :: "path \<Rightarrow> pystr"
  pdfimages_rows :: "pystr \<Rightarrow> image_row list"
  pdfimages_png :: "path \<Rightarrow> raw_image list"
  pdftoppm_png :: "path \<Rightarrow> nat \<Rightarrow> (pystr \<times> int) list"

definition run_command :: "env \<Rightarrow> pystr list \<Rightarrow> py_error + CommandResult" where
  "run_command e cmd = (case proc e cmd of Expired \<Rightarrow> Inl TimeoutExpired | Completed r \<Rightarrow> Inr r)"

section \<open>build\_manifest.py\<close>

text \<open>A PDF of the papers directory: its name and its bytes.\<close>

record pdf_file =
  pdf_name :: pystr
  pdf_bytes :: "nat list"

record pdf_record =
  file_name :: pystr
  absolute_path :: pystr
  relative_path :: pystr
  sha256 :: pystr
  size_bytes :: nat
  record_pages :: "nat option"
  extractability_status :: pystr
  extractability_note :: pystr

record unique_record =
  paper_id :: pystr
  unique_sha256 :: pystr
  canonical_file_name :: pystr
  canonical_absolute_path :: pystr
  canonical_relative_path :: pystr
  unique_size_bytes :: nat
  unique_pages :: "nat option"
  unique_status :: pystr
  unique_note :: pystr
  alias_file_names :: "pystr list"
  duplicate_count :: nat

record manifest_all =
  generated_at_utc :: pystr
  papers_dir_name :: pystr
  total_files :: nat
  unique_files :: nat
  duplicate_groups :: nat
  records :: "pdf_record list"
  duplicate_groups_detail :: "pystr list list"

record manifest_unique =
  unique_generated_at_utc :: pystr
  source_total_files :: nat
  source_unique_files :: nat
  papers :: "unique_record list"

definition pdftotext_first_page :: "path \<Rightarrow> pystr list" where
  "pdftotext_first_page p =
     [py ''pdftotext'', py ''-f'', py ''1'', py ''-l'', py ''1'', str_path p, py ''-'']"

definition probe_extractability ::
    "env \<Rightarrow> path \<Rightarrow> path \<Rightarrow> fs \<Rightarrow> (py_error + pystr \<times> pystr) \<times> fs" where
  "probe_extractability e pdf_path staging_dir s =
     (case run_command e (pdftotext_first_page pdf_path) of
        Inl err \<Rightarrow> (Inl err, s)
      | Inr direct \<Rightarrow>
          if code direct = 0 \<and> strip (stdout direct) \<noteq> []
          then (Inr (py ''direct_ok'', py ''pdftotext direct path succeeded''), s)
          else
            (let stage_path = staging_dir @ [stage_name e (last pdf_path) s]
             in case copy2 e pdf_path stage_path of
                  Some exc \<Rightarrow>
                    (Inr (py ''failed'', py ''direct failed; staging copy failed: '' @ exc), s)
                | None \<Rightarrow>
                    (let s' = s\<lparr>files := insert stage_path (files s)\<rparr>
                     in case run_command e (pdftotext_first_page stage_path) of
                          Inl err \<Rightarrow> (Inl err, s')
                        | Inr staged \<Rightarrow>
                            if code staged = 0 \<and> strip (stdout staged) \<noteq> []
                            then (Inr (py ''requires_staging'',
                                       py ''pdftotext succeeds only with ASCII staging path''), s')
                            else (Inr (py ''failed'',
                                       py ''pdftotext failed on direct and staged path''), s'))))"

text \<open>The loop of \<open>build_manifest\<close> over the sorted PDF files, which builds \<open>records\<close>.\<close>

fun probe_files ::
    "env \<Rightarrow> path \<Rightarrow> path \<Rightarrow> path \<Rightarrow> pdf_file list \<Rightarrow> pdf_record list \<Rightarrow> fs \<Rightarrow>
     (py_error + pdf_record list) \<times> fs" where
  "probe_files e papers_dir repo_root staging [] recs s = (Inr recs, s)"
| "probe_files e papers_dir repo_root staging (pdf # rest) recs s =
     (let pdf_path = papers_dir @ [pdf_name pdf]
      in case run_command e [py ''pdfinfo'', str_path pdf_path] of
           Inl err \<Rightarrow> (Inl err, s)
         | Inr info \<Rightarrow>
             (case probe_extractability e pdf_path staging s of
                (Inl err, s') \<Rightarrow> (Inl err, s')
              | (Inr extract_probe, s') \<Rightarrow>
                  probe_files e papers_dir repo_root staging rest
                    (recs @
                     [\<lparr>file_name = pdf_name pdf,
                       absolute_path = str_path pdf_path,
                       relative_path = relative_repo_path pdf_path repo_root,
                       sha256 = sha256_hex e (pdf_bytes pdf),
                       size_bytes = length (pdf_bytes pdf),
                       record_pages = (if code info = 0 then parse_pdfinfo_pages (stdout info) else None),
                       extractability_status = fst extract_probe,
                       extractability_note = snd extract_probe\<rparr>])
                    s'))"

text \<open>\<open>groups.setdefault(key, []).append(record)\<close> on a dictionary in insertion order.\<close>

fun setdefault_append :: "'k \<Rightarrow> 'v \<Rightarrow> ('k \<times> 'v list) list \<Rightarrow> ('k \<times> 'v list) list" where
  "setdefault_append k v [] = [(k, [v])]"
| "setdefault_append k v ((k', vs) # rest) =
     (if k = k' then (k', vs @ [v]) # rest else (k', vs) # setdefault_append k v rest)"

definition group_by_sha256 :: "pdf_record list \<Rightarrow> (pystr \<times> pdf_record list) list" where
  "group_by_sha256 recs = foldl (\<lambda>groups r. setdefault_append (sha256 r) r groups) [] recs"

text \<open>
  The sort key of a bucket, \<open>sorted(x["file_name"] for x in kv[1])[0].lower()\<close>. A bucket
  is never empty.
\<close>

definition group_key :: "pystr \<times> pdf_record list \<Rightarrow> pystr" where
  "group_key kv = lower (hd (sort (map file_name (snd kv))))"

text \<open>\<open>f"paper_{idx:03d}_{sha256[:8]}"\<close>.\<close>

definition format_paper_id :: "nat \<Rightarrow> pystr \<Rightarrow> pystr" where
  "format_paper_id idx sha =
     py ''paper_'' @ replicate (3 - length (str_nat idx)) 48 @ str_nat idx @ py ''_'' @ take 8 sha"

definition unique_record_of :: "nat \<Rightarrow> pystr \<times> pdf_record list \<Rightarrow> unique_record" where
  "unique_record_of idx kv =
     (let sorted_group = sort_key (\<lambda>r. lower (file_name r)) (snd kv);
          canonical = hd sorted_group;
          aliases = map file_name sorted_group
      in \<lparr>paper_id = format_paper_id idx (fst kv),
          unique_sha256 = fst kv,
          canonical_file_name = file_name canonical,
          canonical_absolute_path = absolute_path canonical,
          canonical_relative_path = relative_path canonical,
          unique_size_bytes = size_bytes canonical,
          unique_pages = record_pages canonical,
          unique_status = extractability_status canonical,
          unique_note = extractability_note canonical,
          alias_file_names = aliases,
          duplicate_count = length aliases - 1\<rparr>)"

text \<open>The unique records, numbered from 1 in the order of the sorted buckets.\<close>

definition unique_records_of :: "pdf_record list \<Rightarrow> unique_record list" where
  "unique_records_of recs =
     (let group_items = sort_key group_key (group_by_sha256 recs)
      in map (\<lambda>(idx, kv). unique_record_of idx kv)
             (zip [1 ..< Suc (length group_items)] group_items))"

definition build_manifest ::
    "env \<Rightarrow> path \<Rightarrow> path \<Rightarrow> path \<Rightarrow> pdf_file list \<Rightarrow> fs \<Rightarrow>
     (py_error + manifest_all \<times> manifest_unique) \<times> fs" where
  "build_manifest e papers_dir out_dir repo_root listing s =
     (let staging_probe_dir = out_dir @ [py ''temp_probe''];
          s1 = ensure_dir staging_probe_dir s;
          pdf_files = sort_key (\<lambda>p. lower (pdf_name p)) listing
      in case probe_files e papers_dir repo_root staging_probe_dir pdf_files [] s1 of
           (Inl err, s2) \<Rightarrow> (Inl err, s2)
         | (Inr recs, s2) \<Rightarrow>
             (let unique_records = unique_records_of recs;
                  detail = map alias_file_names unique_records;
                  all = \<lparr>generated_at_utc = utc_now_iso e 0,
                         papers_dir_name = str_path papers_dir,
                         total_files = length recs,
                         unique_files = length unique_records,
                         duplicate_groups = length (filter (\<lambda>g. length g > 1) detail),
                         records = recs,
                         duplicate_groups_detail = detail\<rparr>;
                  unique = \<lparr>unique_generated_at_utc = utc_now_iso e 1,
                            source_total_files = length recs,
                            source_unique_files = length unique_records,
                            papers = unique_records\<rparr>;
                  s3 = json_dump (out_dir @ [py ''manifest_all.json'']) s2;
                  s4 = json_dump (out_dir @ [py ''manifest_unique.json'']) s3;
                  s5 = (if path_exists s4 staging_probe_dir then rmtree staging_probe_dir s4 else s4)
              in (Inr (all, unique), s5)))"

text \<open>
  \<open>main\<close> of build\_manifest.py, with the two directories already resolved. The output
  directory is created first; when that raises, the exception ends the run.
\<close>

definition main ::
    "env \<Rightarrow> path \<Rightarrow> path \<Rightarrow> path \<Rightarrow> pdf_file list \<Rightarrow> fs \<Rightarrow>
     (py_error + manifest_all \<times> manifest_unique) \<times> fs" where
  "main e papers_dir out_dir repo_root listing s =
     (if mkdir_blocked s out_dir then (Inl OSError, s)
      else
        (let s1 = ensure_dir out_dir s
         in if \<not> path_exists s1 papers_dir
            then (Inl (SystemExit (py ''papers directory does not exist: '' @ str_path papers_dir)), s1)
            else build_manifest e papers_dir out_dir repo_root listing s1))"

subsection \<open>A concrete environment\<close>

text \<open>
  Two file contents, with their SHA-256 digests as \<open>hashlib\<close> computes them. The digest
  function of the example environment is right on these two contents, the only ones that
  occur below; every other content is given the digest of the empty content. The external
  commands of the example environment complete with exit code 0: \<open>pdfinfo\<close> reports three
  pages and every other command prints a line of text.
\<close>

definition vortex_bytes :: "nat list" where
  "vortex_bytes = [37, 80, 68, 70, 45, 49, 46, 52, 32, 118, 111, 114, 116, 101, 120]"

definition tsunami_bytes :: "nat list" where
  "tsunami_bytes = [37, 80, 68, 70, 45, 49, 46, 52, 32, 116, 115, 117, 110, 97, 109, 105]"

definition example_sha256 :: "nat list \<Rightarrow> pystr" where
  "example_sha256 b =
     (if b = vortex_bytes
        then py ''bee2a6c3f6caf342b4a498eb656940e7bb54a98ac92cae40059438e4c75f57cc''
      else if b = tsunami_bytes
        then py ''8a59bacaf12f505c480c55915c6cecc488e7eb2432629f8808064930cec2b595''
      else py ''e3b0c44298fc1c149afbf4c8996fb92427ae41e4649b934ca495991b7852b855'')"

definition example_proc :: "pystr list \<Rightarrow> proc_outcome" where
  "example_proc cmd =
     (if take 1 cmd = [py ''pdfinfo'']
      then Completed \<lparr>code = 0, stdout = py ''Pages:          3'' @ [10], stderr = []\<rparr>
      else Completed \<lparr>code = 0, stdout = py ''Vorticity dynamics'' @ [10], stderr = []\<rparr>)"

definition example_env :: env where
  "example_env =
     \<lparr>proc = example_proc,
      copy2 = (\<lambda>src dst. None),
      sha256_hex = example_sha256,
      utc_now_iso = (\<lambda>n. py ''2026-02-11T09:00:00Z''),
      stage_name = (\<lambda>name s. name),
      pdftotext_writes = (\<lambda>p. True),
      read_text = (\<lambda>p. py ''Vorticity dynamics'' @ [10, 12]),
      pdfimages_rows = (\<lambda>out. []),
      pdfimages_png = (\<lambda>p. []),
      pdftoppm_png = (\<lambda>p n. [])\<rparr>"

definition start_fs :: fs where
  "start_fs = \<lparr>dirs = {[], [py ''repo''], [py ''repo'', py ''papers'']}, files = {}\<rparr>"

text \<open>
  Two listings of a papers directory: one whose two copies of the same content differ in
  the case of their names, and the three files of the specification's example.
\<close>

definition mixed_case_listing :: "pdf_file list" where
  "mixed_case_listing =
     [\<lparr>pdf_name = py ''B.pdf'', pdf_bytes = vortex_bytes\<rparr>,
      \<lparr>pdf_name = py ''a.pdf'', pdf_bytes = vortex_bytes\<rparr>,
      \<lparr>pdf_name = py ''ab.pdf'', pdf_bytes = tsunami_bytes\<rparr>]"

definition abc_listing :: "pdf_file list" where
  "abc_listing =
     [\<lparr>pdf_name = py ''a.pdf'', pdf_bytes = vortex_bytes\<rparr>,
      \<lparr>pdf_name = py ''b.pdf'', pdf_bytes = vortex_bytes\<rparr>,
      \<lparr>pdf_name = py ''c.pdf'', pdf_bytes = tsunami_bytes\<rparr>]"

section \<open>extract\_assets.py: figure filter\<close>

text \<open>
  \<open>should_keep_image\<close>. The aspect ratio is the quotient of two integers, compared
  with 6; it is taken here as the exact rational quotient.
\<close>

definition should_keep_image :: "image_row \<Rightarrow> int \<Rightarrow> bool \<times> pystr" where
  "should_keep_image row file_size =
     (let width = row_width row;
          height = row_height row;
          area = width * height;
          image_type = lower (row_type row);
          page = row_page row
      in if image_type \<in> {py ''mask'', py ''smask'', py ''stencil''}
           then (False, py ''mask_or_stencil'')
         else if width < 160 \<or> height < 160 then (False, py ''too_small_dimensions'')
         else if area < 60000 then (False, py ''too_small_area'')
         else if min width height = 0 then (False, py ''invalid_dimensions'')
         else if (of_int (max width height) / of_int (min width height) :: rat) > 6
           then (False, py ''extreme_aspect_ratio'')
         else if file_size < 8192 then (False, py ''too_small_file'')
         else if page \<le> 2 \<and> width \<le> 420 \<and> height \<le> 420 \<and> file_size < 50000
           then (False, py ''likely_decorative_frontmatter'')
         else (True, py ''kept''))"

section \<open>extract\_assets.py: equation candidates\<close>

text \<open>The code points of \<open>EQUATION_SYMBOLS\<close>.\<close>

definition EQUATION_SYMBOLS :: "nat list" where
  "EQUATION_SYMBOLS = [8706, 8711, 916, 969, 968, 957, 951, 931]"

text \<open>
  \<open>re.search(r"\(\d+(\.\d+)?\)$", line)\<close>, read from the end of the line: a closing
  parenthesis, a run of digits, optionally a dot before another run of digits, and the
  opening parenthesis. \<open>$\<close> also matches before a final line feed.
\<close>

definition number_before :: "pystr \<Rightarrow> bool" where
  "number_before r =
     (case r of
        c # r1 \<Rightarrow>
          c = 41 \<and> takeWhile isdigit r1 \<noteq> [] \<and>
          (case dropWhile isdigit r1 of
             [] \<Rightarrow> False
           | d # r2 \<Rightarrow>
               d = 40 \<or>
               (d = 46 \<and> takeWhile isdigit r2 \<noteq> [] \<and>
                (case dropWhile isdigit r2 of [] \<Rightarrow> False | e # _ \<Rightarrow> e = 40)))
      | [] \<Rightarrow> False)"

definition trailing_number :: "pystr \<Rightarrow> bool" where
  "trailing_number line =
     (number_before (rev line) \<or>
      (case rev line of c # r \<Rightarrow> c = 10 \<and> number_before r | [] \<Rightarrow> False))"

record equation_candidate =
  equation :: pystr
  eq_page :: nat
  eq_score :: int

text \<open>The score that the loop body of \<open>extract_equation_candidates\<close> gives a cleaned line.\<close>

definition equation_score :: "pystr \<Rightarrow> int" where
  "equation_score line =
     (let lower = lower line
      in (if list_ex (contains lower)
               [py ''d/dt'', py ''partial'', py ''nabla'', py ''laplac'', py ''jacobian'',
                py ''cfl'', py ''reynolds'']
          then 2 else 0)
       + (if list_ex (contains lower)
               [py ''omega'', py ''psi'', py ''eta'', py ''nu'', py ''u'', py ''v'', py ''h'']
          then 1 else 0)
       + (if trailing_number line then 2 else 0)
       + (if list_ex (\<lambda>c. c \<in> set EQUATION_SYMBOLS) line then 2 else 0)
       + (if list_ex (\<lambda>c. c \<in> {43, 45, 42, 47}) line then 1 else 0))"

text \<open>
  One pass of the inner loop: \<open>candidates\<close> and \<open>seen\<close> before and after the line
  \<open>raw_line\<close> of page \<open>page_idx\<close>.
\<close>

definition equation_line ::
    "nat \<Rightarrow> equation_candidate list \<times> pystr set \<Rightarrow> pystr \<Rightarrow>
     equation_candidate list \<times> pystr set" where
  "equation_line page_idx st raw_line =
     (let line = clean_whitespace raw_line
      in if line = [] \<or> \<not> contains line (py ''='') then st
         else if length line < 8 \<or> length line > 220 then st
         else if equation_score line < 2 then st
         else let normalized = filter (\<lambda>c. \<not> isspace c) (lower line)
              in if normalized \<in> snd st then st
                 else (fst st @ [\<lparr>equation = line, eq_page = page_idx,
                                    eq_score = equation_score line\<rparr>],
                       insert normalized (snd st)))"

definition extract_equation_candidates :: "pystr list \<Rightarrow> nat \<Rightarrow> equation_candidate list" where
  "extract_equation_candidates pages limit =
     (let scanned = foldl (\<lambda>st (page_idx, page_text).
                             foldl (equation_line page_idx) st (splitlines page_text))
                          ([], {}) (zip [1 ..< Suc (length pages)] pages)
      in take limit (sort_key (\<lambda>item. (- eq_score item, eq_page item)) (fst scanned)))"

section \<open>extract\_assets.py: the extraction run\<close>

text \<open>
  \<open>split_pages_from_pdftotext\<close>: the text is split at form feeds, and a last page of
  white space only is dropped.
\<close>

fun split_on :: "nat \<Rightarrow> pystr \<Rightarrow> pystr \<Rightarrow> pystr list" where
  "split_on sep cur [] = [cur]"
| "split_on sep cur (c # cs) =
     (if c = sep then cur # split_on sep [] cs else split_on sep (cur @ [c]) cs)"

definition split_pages_from_pdftotext :: "pystr \<Rightarrow> pystr list" where
  "split_pages_from_pdftotext full_text =
     (let pages = split_on 12 [] full_text
      in if pages \<noteq> [] \<and> strip (last pages) = [] then butlast pages else pages)"






text \<open>A figure that \<open>extract_figures\<close> keeps, and its summary.\<close>

record figure =
  figure_id :: pystr
  figure_source :: pystr
  figure_page :: int
  figure_size_bytes :: int

record figure_summary =
  pdfimages_row_count :: nat
  kept_count :: nat
  rejected_count :: nat
  fallback_used :: bool
  figures :: "figure list"
  rejections :: "(int \<times> pystr) list"













subsection \<open>A manifest of two papers and two failing environments\<close>

definition example_paper :: "pystr \<Rightarrow> pystr \<Rightarrow> pystr \<Rightarrow> unique_record" where
  "example_paper pid sha name =
     \<lparr>paper_id = pid, unique_sha256 = sha, canonical_file_name = name,
      canonical_absolute_path = py ''/repo/papers/'' @ name,
      canonical_relative_path = py ''papers/'' @ name,
      unique_size_bytes = 15, unique_pages = Some 3,
      unique_status = py ''direct_ok'',
      unique_note = py ''pdftotext direct path succeeded'',
      alias_file_names = [name], duplicate_count = 0\<rparr>"

definition example_manifest :: manifest_unique where
  "example_manifest =
     \<lparr>unique_generated_at_utc = py ''2026-02-11T09:00:00Z'',
      source_total_files = 2, source_unique_files = 2,
      papers = [example_paper (py ''paper_001_bee2a6c3'') (example_sha256 vortex_bytes) (py ''a.pdf''),
                example_paper (py ''paper_002_8a59baca'') (example_sha256 tsunami_bytes) (py ''c.pdf'')]\<rparr>"



text \<open>
  The line \<open>\<partial>\<omega>/\<partial>t + u\<cdot>\<nabla>\<omega> = \<nu>\<nabla>\<^sup>2\<omega> (4)\<close> of the specification's example, as code points:
  U+2202, U+03C9, \<open>/\<close>, U+2202, \<open>t\<close>, space, \<open>+\<close>, space, \<open>u\<close>, U+00B7, U+2207, U+03C9,
  space, \<open>=\<close>, space, U+03BD, U+2207, U+00B2, U+03C9, space, \<open>(4)\<close>.
\<close>

definition vorticity_line :: pystr where
  "vorticity_line =
     [8706, 969, 47, 8706, 116, 32, 43, 32, 117, 183, 8711, 969, 32, 61, 32,
      957, 8711, 178, 969, 32, 40, 52, 41]"

section \<open>publish\_notion.py: appending blocks\<close>

text \<open>
  What one HTTP attempt gives back: \<open>requests\<close> raises, or a response arrives. The fields
  of the response are the ones the publisher reads.
\<close>

record response =
  status_code :: nat
  retry_after :: "pystr option"
  body_text :: pystr

datatype http_outcome = RequestException | Response response

text \<open>
  The remote service is a function from the number of attempts made so far and the payload
  to the outcome of the next attempt. The state threaded through the publisher is the list
  of payloads sent so far, one entry per HTTP attempt. Sleeping between attempts changes
  nothing that is observed here.
\<close>

type_synonym 'p service = "nat \<Rightarrow> 'p \<Rightarrow> http_outcome"

text \<open>
  \<open>request_with_retry\<close>: the loop over \<open>attempt\<close> from 1 to \<open>max_attempts\<close>; \<open>left\<close> is the
  number of attempts still to make after the current one, so \<open>attempt < max_attempts\<close>
  is \<open>0 < left\<close>.
\<close>

fun retry_loop :: "'p service \<Rightarrow> 'p \<Rightarrow> nat \<Rightarrow> 'p list \<Rightarrow> (py_error + response) \<times> 'p list" where
  "retry_loop http payload 0 sent =
     (Inl (RuntimeError (py ''request failed after retries'')), sent)"
| "retry_loop http payload (Suc left) sent =
     (case http (length sent) payload of
        RequestException \<Rightarrow> retry_loop http payload left (sent @ [payload])
      | Response r \<Rightarrow>
          if status_code r \<in> {429, 500, 502, 503, 504} \<and> 0 < left
          then retry_loop http payload left (sent @ [payload])
          else (Inr r, sent @ [payload]))"

definition request_with_retry ::
    "'p service \<Rightarrow> 'p \<Rightarrow> 'p list \<Rightarrow> (py_error + response) \<times> 'p list" where
  "request_with_retry http payload sent = retry_loop http payload 6 sent"

text \<open>One entry of the publish log written by \<open>append_blocks\<close>.\<close>

record append_event =
  chunk_index :: nat
  chunk_size :: nat
  event_status :: nat

text \<open>
  \<open>append_blocks\<close>: the loop over \<open>enumerate(chunked(list(blocks), 100), start=1)\<close>. The
  result is the exception raised, if any, the publish log and the payloads sent.
\<close>

fun append_loop ::
    "'b list service \<Rightarrow> nat \<Rightarrow> 'b list list \<Rightarrow> append_event list \<Rightarrow> 'b list list \<Rightarrow>
     py_error option \<times> append_event list \<times> 'b list list" where
  "append_loop http chunk_idx [] publish_log sent = (None, publish_log, sent)"
| "append_loop http chunk_idx (chunk # rest) publish_log sent =
     (case request_with_retry http chunk sent of
        (Inl e, sent') \<Rightarrow> (Some e, publish_log, sent')
      | (Inr r, sent') \<Rightarrow>
          (let publish_log' = publish_log @
                 [\<lparr>chunk_index = chunk_idx, chunk_size = length chunk,
                   event_status = status_code r\<rparr>]
           in if status_code r \<ge> 300
              then (Some (RuntimeError (py ''append blocks failed at chunk '' @ str_nat chunk_idx
                            @ py '': '' @ str_nat (status_code r) @ py '' '' @ take 400 (body_text r))),
                    publish_log', sent')
              else append_loop http (Suc chunk_idx) rest publish_log' sent'))"

definition append_blocks ::
    "'b list service \<Rightarrow> 'b list \<Rightarrow> append_event list \<Rightarrow> 'b list list \<Rightarrow>
     py_error option \<times> append_event list \<times> 'b list list" where
  "append_blocks http blocks publish_log sent =
     (case chunked blocks 100 of
        Inl e \<Rightarrow> (Some e, publish_log, sent)
      | Inr chunks \<Rightarrow> append_loop http 1 chunks publish_log sent)"

section \<open>summarize\_papers.py\<close>

text \<open>
  \<open>sentence_tokenize\<close>: the cleaned text is split by \<open>re.split(r"(?<=[.!?])\s+", flat)\<close>,
  that is at every run of white space that follows a full stop, an exclamation mark or a
  question mark; the parts are stripped and the empty ones dropped.
\<close>

function split_after_stop :: "pystr \<Rightarrow> pystr \<Rightarrow> pystr list" where
  "split_after_stop cur [] = [cur]"
| "split_after_stop cur (c # cs) =
     (if isspace c \<and> cur \<noteq> [] \<and> last cur \<in> {46, 33, 63}
      then cur # split_after_stop [] (dropWhile isspace cs)
      else split_after_stop (cur @ [c]) cs)"
  by pat_completeness auto
termination
  by (relation "measure (\<lambda>(cur, t). length t)") (auto simp: le_imp_less_Suc length_dropWhile_le)

definition sentence_tokenize :: "pystr \<Rightarrow> pystr list" where
  "sentence_tokenize t =
     (let flat = clean_whitespace t
      in if flat = [] then []
         else map strip (filter (\<lambda>p. strip p \<noteq> []) (split_after_stop [] flat)))"

text \<open>\<open>sep.join(parts)\<close>.\<close>

fun str_join :: "pystr \<Rightarrow> pystr list \<Rightarrow> pystr" where
  "str_join sep [] = []"
| "str_join sep [x] = x"
| "str_join sep (x # y # ys) = x @ sep @ str_join sep (y # ys)"

text \<open>
  The documents that \<open>summarize_papers\<close> reads are taken with the shapes in which
  \<open>build_manifest\<close> and \<open>extract_assets\<close> write them. A file that does not exist is
  \<open>None\<close>; so is a field of \<open>metadata.json\<close> that is missing or \<open>null\<close>. The field
  \<open>meta_text_quality\<close> is \<open>extraction.text_quality.quality\<close>.
\<close>

record metadata =
  meta_title :: "pystr option"
  meta_vancouver_citation :: "pystr option"
  meta_doi :: "pystr option"
  meta_url :: "pystr option"
  meta_year :: pystr
  meta_journal :: pystr
  meta_authors :: "pystr list"
  meta_text_quality :: "pystr option"

record paper_assets =
  metadata_json :: "metadata option"
  text_txt :: "pystr option"
  equation_candidates_json :: "equation_candidate list option"
  figures_index_json :: "figure list option"

text \<open>\<open>x or y\<close> for a string or \<open>None\<close> on the left: \<open>None\<close> and the empty string are false.\<close>

definition py_or :: "pystr option \<Rightarrow> pystr \<Rightarrow> pystr" where
  "py_or x y = (case x of None \<Rightarrow> y | Some t \<Rightarrow> if t \<noteq> [] then t else y)"

definition load_pages :: "pystr option \<Rightarrow> pystr list" where
  "load_pages text_file =
     (case text_file of None \<Rightarrow> [] | Some t \<Rightarrow> split_pages_from_pdftotext t)"

text \<open>
  \<open>extract_abstract_snippet\<close>. What \<open>ABSTRACT_REGEX.search\<close> finds in a text, the first
  group of the first match if there is one, is the parameter \<open>abstract_search\<close>: the
  pattern is matched without regard to case and with word boundaries, which rest on the
  Unicode tables.
\<close>

definition extract_abstract_snippet :: "(pystr \<Rightarrow> pystr option) \<Rightarrow> pystr list \<Rightarrow> pystr \<times> nat" where
  "extract_abstract_snippet abstract_search pages =
     (if pages = [] then ([], 1)
      else (case abstract_search (str_join [10] (take 3 pages)) of
              Some found \<Rightarrow> (take 2400 (clean_whitespace found), 1)
            | None \<Rightarrow> (take 2000 (clean_whitespace (str_join [10] (take 2 pages))), 1)))"

record sentence =
  sent_page :: nat
  sent_text :: pystr

text \<open>\<open>collect_sentences_with_pages\<close>: the sentences of one page, and of the first pages.\<close>

definition page_sentences :: "nat \<Rightarrow> pystr \<Rightarrow> sentence list" where
  "page_sentences page_no page_text =
     (let raw_lines = filter (\<lambda>line. length line \<ge> 20)
                        (map clean_whitespace (splitlines page_text))
      in concat (map (\<lambda>line.
           map (\<lambda>sent. \<lparr>sent_page = page_no,
                         sent_text = (if length sent > 320 then take 320 sent else sent)\<rparr>)
               (filter (\<lambda>sent. \<not> length sent < 25) (sentence_tokenize line)))
           raw_lines))"

definition collect_sentences_with_pages :: "pystr list \<Rightarrow> nat \<Rightarrow> sentence list" where
  "collect_sentences_with_pages pages page_limit =
     concat (map (\<lambda>(page_no, page_text). page_sentences page_no page_text)
                 (zip [1 ..< Suc (length (take page_limit pages))] (take page_limit pages)))"

text \<open>
  \<open>pick_sentences\<close>: the first loop takes the sentences that hold a keyword, the second
  fills up with the others; a sentence is taken once (up to case and white space), and
  both loops stop as soon as \<open>limit\<close> sentences are chosen. The first component of the
  result of \<open>pick_matching\<close> tells whether the first loop returned.
\<close>

fun pick_matching ::
    "pystr list \<Rightarrow> nat \<Rightarrow> sentence list \<Rightarrow> sentence list \<Rightarrow> pystr set \<Rightarrow>
     bool \<times> sentence list \<times> pystr set" where
  "pick_matching lower_keywords limit [] chosen seen = (False, chosen, seen)"
| "pick_matching lower_keywords limit (item # rest) chosen seen =
     (let lower = lower (sent_text item)
      in if list_ex (\<lambda>keyword. contains lower keyword) lower_keywords
         then (let norm = sub_spaces lower
               in if norm \<in> seen then pick_matching lower_keywords limit rest chosen seen
                  else if length (chosen @ [item]) \<ge> limit
                       then (True, chosen @ [item], insert norm seen)
                       else pick_matching lower_keywords limit rest (chosen @ [item])
                              (insert norm seen))
         else pick_matching lower_keywords limit rest chosen seen)"

fun pick_remaining :: "nat \<Rightarrow> sentence list \<Rightarrow> sentence list \<Rightarrow> pystr set \<Rightarrow> sentence list" where
  "pick_remaining limit [] chosen seen = chosen"
| "pick_remaining limit (item # rest) chosen seen =
     (let norm = sub_spaces (lower (sent_text item))
      in if norm \<in> seen then pick_remaining limit rest chosen seen
         else if length (chosen @ [item]) \<ge> limit then chosen @ [item]
              else pick_remaining limit rest (chosen @ [item]) (insert norm seen))"

definition pick_sentences :: "sentence list \<Rightarrow> pystr list \<Rightarrow> nat \<Rightarrow> sentence list" where
  "pick_sentences sentences keywords limit =
     (case pick_matching (map lower keywords) limit sentences [] {} of
        (True, chosen, seen) \<Rightarrow> chosen
      | (False, chosen, seen) \<Rightarrow> pick_remaining limit sentences chosen seen)"

definition format_paragraph_from_sentences :: "sentence list \<Rightarrow> pystr \<Rightarrow> pystr" where
  "format_paragraph_from_sentences items fallback =
     (if items = [] then fallback else str_join [32] (map sent_text items))"

definition extract_findings :: "sentence list \<Rightarrow> nat \<Rightarrow> sentence list" where
  "extract_findings sentences limit =
     pick_sentences sentences
       [py ''result'', py ''show'', py ''found'', py ''demonstrat'', py ''agree'',
        py ''accuracy'', py ''performance''] limit"

definition extract_methods :: "sentence list \<Rightarrow> nat \<Rightarrow> sentence list" where
  "extract_methods sentences limit =
     pick_sentences sentences
       [py ''method'', py ''numerical'', py ''simulation'', py ''finite'', py ''spectral'',
        py ''lattice'', py ''solver'', py ''scheme'', py ''equation''] limit"

definition extract_objective :: "sentence list \<Rightarrow> nat \<Rightarrow> sentence list" where
  "extract_objective sentences limit =
     pick_sentences sentences
       [py ''this paper'', py ''this study'', py ''we present'', py ''we investigate'',
        py ''we propose'', py ''aim'', py ''objective''] limit"

definition extract_limitations :: "sentence list \<Rightarrow> nat \<Rightarrow> sentence list" where
  "extract_limitations sentences limit =
     pick_sentences sentences
       [py ''limitation'', py ''future'', py ''however'', py ''assume'', py ''restricted'',
        py ''challenge'', py ''uncertain''] limit"

text \<open>
  \<open>build_repo_observations\<close>: the fixed first observation and one observation for every
  group of tokens of which one occurs in the text, at most six in all.
\<close>

definition observation_rules :: "(pystr list \<times> pystr) list" where
  "observation_rules =
     [([py ''arakawa'', py ''finite difference'', py ''rk4'', py ''jacobian''],
       py ''Its numerical treatment can be mapped to the active FD path in `Scripts/Methods/FiniteDifference/FiniteDifferenceMethod.m` and runtime dispatch in `Scripts/Drivers/Tsunami_Vorticity_Emulator.m`.''),
      ([py ''spectral'', py ''fft'', py ''fourier''],
       py ''It informs the experimental spectral branch under `Scripts/Methods/Spectral/README.md`, which is currently not fully wired in dispatcher modes.''),
      ([py ''finite volume'', py ''fvm'', py ''flux''],
       py ''It provides method-level rationale for the finite-volume roadmap in `Scripts/Methods/FiniteVolume/README.md`.''),
      ([py ''validation'', py ''benchmark'', py ''convergence'', py ''error''],
       py ''Its benchmarking ideas are directly relevant to convergence workflows in `Scripts/Modes/Convergence/mode_convergence.m` and `Scripts/Modes/Convergence/run_adaptive_convergence.m`.''),
      ([py ''bathymetry'', py ''topography'', py ''shallow water'', py ''boundary layer'',
        py ''tsunami''],
       py ''Its physical assumptions should be cross-checked against variable-bathymetry handling in `Scripts/Modes/Variable_Bathymetry_Analysis.m` and planned mode/method unification.''),
      ([py ''energy'', py ''sustainability'', py ''power'', py ''computational cost'', py ''gpu''],
       py ''Its compute-performance implications connect to sustainability instrumentation in `Scripts/Sustainability/SustainabilityLedger.m` and `Scripts/Sustainability/EnergySustainabilityAnalyzer.m`.''),
      ([py ''machine learning'', py ''data-driven'', py ''surrogate'', py ''ai''],
       py ''Its modeling direction can be compared with the ML roadmap in `Markdowns/MACHINE_LEARNING_VORTICITY_ABSORPTION.md`.'')]"

definition build_repo_observations :: "pystr \<Rightarrow> pystr list" where
  "build_repo_observations full_text =
     (let lower = lower full_text
      in take 6
           (py ''This paper links to the vorticity-streamfunction implementation documented in `Markdowns/MATHEMATICAL_FRAMEWORK.md` and `Scripts/Methods/FiniteDifference/README.md`.''
            # map snd (filter (\<lambda>rule. list_ex (\<lambda>token. contains lower token) (fst rule))
                              observation_rules)))"

text \<open>
  \<open>build_evidence_anchors\<close>. \<open>add_items\<close> reads the page and the quoted field of each
  item; an item whose quote is empty after cleaning gives no anchor. The anchors are then
  taken once each, by tag, page and quote without regard to case, and at most fourteen of
  them are kept.
\<close>

record anchor =
  anchor_tag :: pystr
  anchor_page :: nat
  anchor_quote :: pystr

definition add_items :: "(nat \<times> pystr) list \<Rightarrow> pystr \<Rightarrow> anchor list" where
  "add_items items tag =
     map (\<lambda>(page, field). \<lparr>anchor_tag = tag, anchor_page = page,
                             anchor_quote = take 280 (clean_whitespace field)\<rparr>)
         (filter (\<lambda>(page, field). clean_whitespace field \<noteq> []) items)"

fun unique_anchors :: "anchor list \<Rightarrow> (pystr \<times> nat \<times> pystr) set \<Rightarrow> anchor list" where
  "unique_anchors [] seen = []"
| "unique_anchors (a # rest) seen =
     (let key = (anchor_tag a, anchor_page a, lower (anchor_quote a))
      in if key \<in> seen then unique_anchors rest seen
         else a # unique_anchors rest (insert key seen))"

definition build_evidence_anchors ::
    "sentence list \<Rightarrow> sentence list \<Rightarrow> sentence list \<Rightarrow> sentence list \<Rightarrow>
     equation_candidate list \<Rightarrow> anchor list" where
  "build_evidence_anchors objective methods findings limitations equations =
     (let text_items = map (\<lambda>item. (sent_page item, sent_text item));
          anchors = add_items (text_items objective) (py ''objective'')
                  @ add_items (text_items methods) (py ''methods'')
                  @ add_items (text_items findings) (py ''findings'')
                  @ add_items (text_items limitations) (py ''limitations'')
                  @ add_items (map (\<lambda>item. (eq_page item, equation item)) equations)
                      (py ''equation'')
      in take 14 (unique_anchors anchors {}))"

text \<open>The record of one paper in the corpus document, and its bibliography entry.\<close>

record summary_record =
  sum_paper_id :: pystr
  sum_citation_number :: nat
  sum_title :: pystr
  sum_canonical_file_name :: pystr
  sum_alias_file_names :: "pystr list"
  sum_objective :: pystr
  sum_methods :: pystr
  sum_findings :: pystr
  sum_limitations :: pystr
  sum_abstract_excerpt :: pystr
  sum_key_equations :: "equation_candidate list"
  sum_repo_observations :: "pystr list"
  sum_evidence_anchors :: "anchor list"
  sum_figures :: "figure list"
  sum_citation :: pystr
  sum_doi :: pystr
  sum_url :: pystr
  sum_year :: pystr
  sum_journal :: pystr
  sum_authors :: "pystr list"
  sum_text_quality :: pystr
  sum_figure_count :: nat
  sum_equation_count :: nat

record bibliography_entry =
  bib_id :: nat
  bib_paper_id :: pystr
  bib_title :: pystr
  bib_citation :: pystr
  bib_doi :: pystr
  bib_url :: pystr

text \<open>The body of the loop of \<open>summarize_papers\<close> for a paper whose metadata exists.\<close>

definition summarize_paper ::
    "(pystr \<Rightarrow> pystr option) \<Rightarrow> nat \<Rightarrow> unique_record \<Rightarrow> metadata \<Rightarrow> paper_assets \<Rightarrow>
     summary_record" where
  "summarize_paper abstract_search citation_number paper metadata assets =
     (let pages = load_pages (text_txt assets);
          equations = (case equation_candidates_json assets of None \<Rightarrow> [] | Some qs \<Rightarrow> qs);
          figures = (case figures_index_json assets of None \<Rightarrow> [] | Some fs \<Rightarrow> fs);
          (abstract_text, abstract_page) = extract_abstract_snippet abstract_search pages;
          sentence_pool = collect_sentences_with_pages pages 10;
          objective_sentences = extract_objective sentence_pool 2;
          methods_sentences = extract_methods sentence_pool 3;
          findings_sentences = extract_findings sentence_pool 3;
          limitation_sentences = extract_limitations sentence_pool 2;
          key_equations =
            (if take 5 equations = []
             then [\<lparr>equation = py ''No extractable governing equation found in machine-readable text.'',
                    eq_page = 1, eq_score = 0\<rparr>]
             else take 5 equations);
          anchors = build_evidence_anchors objective_sentences methods_sentences
                      findings_sentences limitation_sentences key_equations;
          evidence =
            (if anchors = []
             then [\<lparr>anchor_tag = py ''fallback'', anchor_page = abstract_page,
                    anchor_quote = (if abstract_text \<noteq> [] then take 280 abstract_text
                                    else py ''No evidence text extracted.'')\<rparr>]
             else anchors);
          title = py_or (meta_title metadata)
                    (py_or (Some (canonical_file_name paper)) (paper_id paper));
          citation = py_or (meta_vancouver_citation metadata) title;
          doi = py_or (meta_doi metadata) [];
          url = py_or (meta_url metadata) []
      in \<lparr>sum_paper_id = paper_id paper,
          sum_citation_number = citation_number,
          sum_title = title,
          sum_canonical_file_name = canonical_file_name paper,
          sum_alias_file_names = alias_file_names paper,
          sum_objective = format_paragraph_from_sentences objective_sentences
            (py ''Automated extraction could not isolate a clear objective sentence; see evidence anchors for source excerpts.''),
          sum_methods = format_paragraph_from_sentences methods_sentences
            (py ''Method-specific language was sparse in extracted text; this summary relies on metadata and equation snippets.''),
          sum_findings = format_paragraph_from_sentences findings_sentences
            (py ''Clear result statements were not confidently extracted from text; conclusions should be read directly in the source PDF.''),
          sum_limitations = format_paragraph_from_sentences limitation_sentences
            (py ''Explicit limitations were not clearly stated in extracted text; treat this as an extraction-confidence caveat.''),
          sum_abstract_excerpt = abstract_text,
          sum_key_equations = key_equations,
          sum_repo_observations = build_repo_observations (str_join [10] (take 8 pages)),
          sum_evidence_anchors = evidence,
          sum_figures = figures,
          sum_citation = citation,
          sum_doi = doi,
          sum_url = url,
          sum_year = meta_year metadata,
          sum_journal = meta_journal metadata,
          sum_authors = meta_authors metadata,
          sum_text_quality = (case meta_text_quality metadata of None \<Rightarrow> py ''unknown''
                              | Some q \<Rightarrow> q),
          sum_figure_count = length figures,
          sum_equation_count = length key_equations\<rparr>)"

text \<open>
  The loop over the papers of the manifest, numbered from 1. The assets of a paper are
  those of the directory \<open>papers/<paper_id>\<close> below the assets directory; a paper without
  \<open>metadata.json\<close> is skipped and keeps its number.
\<close>

fun summarize_loop ::
    "(pystr \<Rightarrow> pystr option) \<Rightarrow> (pystr \<Rightarrow> paper_assets) \<Rightarrow> (nat \<times> unique_record) list \<Rightarrow>
     summary_record list \<Rightarrow> summary_record list" where
  "summarize_loop abstract_search assets [] summaries = summaries"
| "summarize_loop abstract_search assets ((citation_number, paper) # rest) summaries =
     (case metadata_json (assets (paper_id paper)) of
        None \<Rightarrow> summarize_loop abstract_search assets rest summaries
      | Some metadata \<Rightarrow>
          summarize_loop abstract_search assets rest
            (summaries @ [summarize_paper abstract_search citation_number paper metadata
                            (assets (paper_id paper))]))"

record corpus_summary =
  corpus_source_total_files :: nat
  corpus_source_unique_files :: nat
  summarized_records :: nat
  corpus_duplicate_groups :: nat

record validation =
  all_have_citations :: bool
  all_have_evidence :: bool
  all_have_equation_or_fallback :: bool

record corpus =
  corpus_generated_at_utc :: pystr
  corpus_manifest_path :: pystr
  corpus_assets_dir :: pystr
  corpus_summary :: corpus_summary
  corpus_papers :: "summary_record list"
  corpus_bibliography :: "bibliography_entry list"
  corpus_validation :: validation

text \<open>
  \<open>summarize_papers\<close>: the document that is written to \<open>out_json\<close>, for the manifest and the
  assets read from the two paths.
\<close>

definition summarize_papers ::
    "env \<Rightarrow> (pystr \<Rightarrow> pystr option) \<Rightarrow> pystr \<Rightarrow> pystr \<Rightarrow> manifest_unique \<Rightarrow>
     (pystr \<Rightarrow> paper_assets) \<Rightarrow> corpus" where
  "summarize_papers e abstract_search manifest_path assets_dir manifest assets =
     (let papers = papers manifest;
          summaries = summarize_loop abstract_search assets
                        (zip [1 ..< Suc (length papers)] papers) [];
          bibliography = map (\<lambda>r. \<lparr>bib_id = sum_citation_number r,
                                     bib_paper_id = sum_paper_id r,
                                     bib_title = sum_title r,
                                     bib_citation = sum_citation r,
                                     bib_doi = sum_doi r,
                                     bib_url = sum_url r\<rparr>) summaries
      in \<lparr>corpus_generated_at_utc = utc_now_iso e 0,
          corpus_manifest_path = manifest_path,
          corpus_assets_dir = assets_dir,
          corpus_summary =
            \<lparr>corpus_source_total_files = source_total_files manifest,
             corpus_source_unique_files = source_unique_files manifest,
             summarized_records = length summaries,
             corpus_duplicate_groups = length (filter (\<lambda>p. duplicate_count p > 0) papers)\<rparr>,
          corpus_papers = summaries,
          corpus_bibliography = bibliography,
          corpus_validation =
            \<lparr>all_have_citations = list_all (\<lambda>item. sum_citation item \<noteq> []) summaries,
             all_have_evidence = list_all (\<lambda>item. length (sum_evidence_anchors item) > 0) summaries,
             all_have_equation_or_fallback =
               list_all (\<lambda>item. length (sum_key_equations item) > 0) summaries\<rparr>\<rparr>)"

subsection \<open>Example assets\<close>

text \<open>
  A clock that reads one second later; the assets of the first paper of the example
  manifest, with metadata and one equation candidate and no text; and a manifest and
  assets in which the id, the file name, the title, the citation and the equation text
  are all empty.
\<close>

definition later_env :: env where
  "later_env = example_env\<lparr>utc_now_iso := (\<lambda>n. py ''2026-02-11T09:00:01Z'')\<rparr>"

definition example_metadata :: metadata where
  "example_metadata =
     \<lparr>meta_title = Some (py ''Vorticity dynamics''),
      meta_vancouver_citation = Some (py ''Vorticity dynamics. 2020.''),
      meta_doi = None, meta_url = None, meta_year = py ''2020'', meta_journal = [],
      meta_authors = [], meta_text_quality = Some (py ''very_low'')\<rparr>"

definition example_assets :: "pystr \<Rightarrow> paper_assets" where
  "example_assets pid =
     (if pid = py ''paper_001_bee2a6c3''
      then \<lparr>metadata_json = Some example_metadata, text_txt = None,
            equation_candidates_json =
              Some [\<lparr>equation = vorticity_line, eq_page = 1, eq_score = 6\<rparr>],
            figures_index_json = None\<rparr>
      else \<lparr>metadata_json = None, text_txt = None, equation_candidates_json = None,
            figures_index_json = None\<rparr>)"



section \<open>Results\<close>

subsection \<open>The figure filter on the two examples\<close>

lemma mask_names_lower:
  "lower (py ''image'') \<notin> {py ''mask'', py ''smask'', py ''stencil''}"
  by (simp add: lower_def lower_cp_def py_def)

text \<open>
  C8. \<open>should_keep_image\<close> is a function of the image-list row and the file size alone. For
  a row that is not a mask or stencil, an image of 100 by 100 pixels is rejected with the
  reason \<open>too_small_dimensions\<close> whatever its file size (12 KB in particular), and an image
  of 500 by 500 pixels on page 5 is kept for every file size from 8192 bytes on (60 KB in
  particular).
\<close>

theorem should_keep_image_examples:
  assumes "lower (row_type row) \<notin> {py ''mask'', py ''smask'', py ''stencil''}"
  shows "(row_width row = 100 \<and> row_height row = 100 \<longrightarrow>
            should_keep_image row file_size = (False, py ''too_small_dimensions'')) \<and>
         (row_width row = 500 \<and> row_height row = 500 \<and> row_page row = 5 \<and> 8192 \<le> file_size \<longrightarrow>
            should_keep_image row file_size = (True, py ''kept''))"
  using assms by (simp add: should_keep_image_def Let_def)

theorem should_keep_image_examples_witness:
  "should_keep_image \<lparr>row_page = 1, row_num = 0, row_type = py ''image'',
       row_width = 100, row_height = 100\<rparr> 12288 = (False, py ''too_small_dimensions'') \<and>
   should_keep_image \<lparr>row_page = 5, row_num = 3, row_type = py ''image'',
       row_width = 500, row_height = 500\<rparr> 61440 = (True, py ''kept'')"
  using should_keep_image_examples [of "\<lparr>row_page = 1, row_num = 0, row_type = py ''image'',
       row_width = 100, row_height = 100\<rparr>" 12288]
    should_keep_image_examples [of "\<lparr>row_page = 5, row_num = 3, row_type = py ''image'',
       row_width = 500, row_height = 500\<rparr>" 61440]
    mask_names_lower
  by simp

subsection \<open>Appending blocks in chunks of 100\<close>


lemma range_step_Nil: "range_step 0 n = []"
  by (cases n) (simp_all add: range_step_def)

lemma range_step_count:
  assumes "0 < n" "0 < m"
  shows "(m + n - 1) div n = Suc ((m - n + n - 1) div n)"
proof (cases "m \<le> n")
  case True
  with assms have "(m + n - 1) div n = 1"
    by (simp add: div_nat_eqI)
  with True assms show ?thesis by simp
next
  case False
  then have "m + n - 1 = (m - n + n - 1) + n" using assms by simp
  then have "(m + n - 1) div n = (m - n + n - 1) div n + 1"
    using assms by (metis div_add_self2 less_numeral_extra(3))
  then show ?thesis by simp
qed

lemma slices_unfold:
  assumes "0 < n" "xs \<noteq> []"
  shows "map (\<lambda>idx. take n (drop idx xs)) (range_step (length xs) n) =
         take n xs # map (\<lambda>idx. take n (drop idx (drop n xs))) (range_step (length (drop n xs)) n)"
proof -
  let ?m = "length xs"
  let ?k = "(?m - n + n - 1) div n"
  have m: "0 < ?m" using assms by simp
  have "[0 ..< (?m + n - 1) div n] = 0 # map Suc [0 ..< ?k]"
    using range_step_count [OF assms(1) m] by (simp add: upt_conv_Cons map_Suc_upt del: upt_Suc)
  then have "range_step ?m n = 0 # map (\<lambda>k. k * n + n) [0 ..< ?k]"
    by (simp add: range_step_def comp_def)
  then show ?thesis
    by (simp add: range_step_def comp_def add.commute)
qed

lemma slices_concat:
  "0 < n \<Longrightarrow> concat (map (\<lambda>idx. take n (drop idx xs)) (range_step (length xs) n)) = xs"
proof (induction "length xs" arbitrary: xs rule: less_induct)
  case less
  show ?case
  proof (cases "xs = []")
    case True
    then show ?thesis by (simp add: range_step_Nil)
  next
    case False
    then have "length (drop n xs) < length xs" using less.prems by simp
    from less.hyps [OF this less.prems] slices_unfold [OF less.prems False]
    show ?thesis by simp
  qed
qed

lemma slices_length:
  "0 < n \<Longrightarrow> length (map (\<lambda>idx. take n (drop idx xs)) (range_step (length xs) n)) = (length xs + n - 1) div n"
  by (simp add: range_step_def)

lemma slices_nth:
  assumes "0 < n" "k < (length xs + n - 1) div n"
  shows "map (\<lambda>idx. take n (drop idx xs)) (range_step (length xs) n) ! k = take n (drop (k * n) xs)"
  using assms by (simp add: range_step_def)


lemma request_with_retry_ok:
  assumes "http (length sent) payload = Response r" "status_code r < 300"
  shows "request_with_retry http payload sent = (Inr r, sent @ [payload])"
proof -
  have "retry_loop http payload (Suc n) sent = (Inr r, sent @ [payload])" for n
    using assms by simp
  from this [of 5] show ?thesis by (simp add: request_with_retry_def)
qed

lemma append_loop_ok:
  assumes "\<forall>k p. \<exists>r. http k p = Response r \<and> status_code r < 300"
  shows "\<exists>events. append_loop http i chunks publish_log sent =
           (None, publish_log @ events, sent @ chunks) \<and>
           map chunk_size events = map length chunks \<and>
           map chunk_index events = [i ..< i + length chunks]"
proof (induction chunks arbitrary: i publish_log sent)
  case Nil
  then show ?case by simp
next
  case (Cons c cs)
  from assms obtain r where r: "http (length sent) c = Response r" "status_code r < 300"
    by blast
  let ?e = "\<lparr>chunk_index = i, chunk_size = length c, event_status = status_code r\<rparr>"
  from Cons.IH [of "Suc i" "publish_log @ [?e]" "sent @ [c]"]
  obtain events where ev:
    "append_loop http (Suc i) cs (publish_log @ [?e]) (sent @ [c]) =
       (None, (publish_log @ [?e]) @ events, (sent @ [c]) @ cs)"
    "map chunk_size events = map length cs"
    "map chunk_index events = [Suc i ..< Suc i + length cs]"
    by blast
  have "append_loop http i (c # cs) publish_log sent =
          (None, publish_log @ (?e # events), sent @ (c # cs))"
    using r ev(1) by (simp add: request_with_retry_ok Let_def)
  moreover have "map chunk_size (?e # events) = map length (c # cs)"
    using ev(2) by simp
  moreover have "map chunk_index (?e # events) = [i ..< i + length (c # cs)]"
  proof -
    have "[i ..< i + length (c # cs)] = i # [Suc i ..< Suc i + length cs]"
      by (simp add: upt_conv_Cons del: upt_Suc)
    then show ?thesis using ev(3) by simp
  qed
  ultimately show ?case by blast
qed

lemma chunked_100:
  "chunked items 100 =
     Inr (map (\<lambda>idx. take 100 (drop idx items)) (range_step (length items) 100))"
  by (simp add: chunked_def)

lemma slices_250:
  assumes "length xs = 250"
  shows "map length (map (\<lambda>idx. take 100 (drop idx xs)) (range_step (length xs) 100)) = [100, 100, 50]"
proof -
  have "[0 ..< (3::nat)] = [0, 1, 2]" by (simp add: upt_conv_Cons)
  then show ?thesis using assms by (simp add: range_step_def comp_def)
qed


lemma slice_size:
  assumes "k < (n + 99) div 100"
  shows "min 100 (n - k * 100) =
         (if Suc k < (n + 99) div 100 \<or> n mod 100 = 0 then 100 else n mod 100)"
proof -
  obtain q r where n: "n = 100 * q + r" "r < 100"
    by (metis mod_less_divisor mult_div_mod_eq zero_less_numeral)
  then have d: "(n + 99) div 100 = (if r = 0 then q else Suc q)" and m: "n mod 100 = r"
    by auto
  show ?thesis
  proof (cases "r = 0")
    case True
    with assms d n show ?thesis by (auto simp: min_def)
  next
    case False
    with assms d n m show ?thesis by (auto simp: min_def)
  qed
qed


text \<open>
  C9. \<open>append_blocks\<close> iterates over \<open>chunked(list(blocks), 100)\<close>. The chunks are
  consecutive slices of the block list: their concatenation is the block list, there are
  \<open>\<lceil>N / 100\<rceil>\<close> of them, every chunk but the last holds exactly 100 blocks, and the last
  holds \<open>N mod 100\<close> blocks (100 when \<open>N\<close> is a positive multiple of 100). When the service
  answers every attempt with a status below 300, the payloads sent are exactly these chunks
  in order, one request and one log entry per chunk, numbered from 1. For 250 blocks the
  sizes are 100, 100 and 50.
\<close>

theorem append_blocks_chunks:
  assumes "\<forall>k p. \<exists>r. http k p = Response r \<and> status_code r < 300"
  shows "\<exists>chunks events.
     chunked blocks 100 = Inr chunks \<and>
     append_blocks http blocks publish_log [] = (None, publish_log @ events, chunks) \<and>
     concat chunks = blocks \<and>
     length chunks = (length blocks + 99) div 100 \<and>
     (\<forall>k < length chunks. length (chunks ! k) =
        (if Suc k < length chunks \<or> length blocks mod 100 = 0 then 100
         else length blocks mod 100)) \<and>
     map chunk_size events = map length chunks \<and>
     map chunk_index events = [1 ..< Suc (length chunks)] \<and>
     (length blocks = 250 \<longrightarrow> map length chunks = [100, 100, 50])"
proof -
  let ?chunks = "map (\<lambda>idx. take 100 (drop idx blocks)) (range_step (length blocks) 100)"
  have c: "chunked blocks 100 = Inr ?chunks" by (rule chunked_100)
  from append_loop_ok [OF assms, of 1 ?chunks publish_log "[]"]
  obtain events where ev:
    "append_loop http 1 ?chunks publish_log [] = (None, publish_log @ events, ?chunks)"
    "map chunk_size events = map length ?chunks"
    "map chunk_index events = [1 ..< 1 + length ?chunks]"
    by auto
  have a: "append_blocks http blocks publish_log [] = (None, publish_log @ events, ?chunks)"
    using ev(1) by (simp add: append_blocks_def c)
  have cc: "concat ?chunks = blocks" by (rule slices_concat) simp
  have len: "length ?chunks = (length blocks + 99) div 100"
    by (simp add: range_step_def)
  have nth: "\<forall>k < length ?chunks. length (?chunks ! k) =
        (if Suc k < length ?chunks \<or> length blocks mod 100 = 0 then 100
         else length blocks mod 100)"
  proof (intro allI impI)
    fix k assume k: "k < length ?chunks"
    then have k': "k < (length blocks + 99) div 100" using len by simp
    then have "?chunks ! k = take 100 (drop (k * 100) blocks)"
      by (simp add: slices_nth)
    then have "length (?chunks ! k) = min 100 (length blocks - k * 100)"
      by (simp add: min.commute)
    then show "length (?chunks ! k) =
        (if Suc k < length ?chunks \<or> length blocks mod 100 = 0 then 100
         else length blocks mod 100)"
      using slice_size [OF k'] by (simp only: len)
  qed
  have ex: "length blocks = 250 \<longrightarrow> map length ?chunks = [100, 100, 50]"
    using slices_250 by blast
  from ev(3) have idx: "map chunk_index events = [1 ..< Suc (length ?chunks)]" by simp
  show ?thesis
    by (rule exI [of _ ?chunks], rule exI [of _ events]) (intro conjI c a cc len nth ev(2) idx ex)
qed


theorem append_blocks_chunks_witness:
  "\<exists>chunks events.
     append_blocks (\<lambda>k p. Response \<lparr>status_code = 200, retry_after = None, body_text = []\<rparr>)
       [0 ..< 250 :: nat] [] [] = (None, events, chunks) \<and>
     concat chunks = [0 ..< 250] \<and>
     map chunk_size events = [100, 100, 50] \<and>
     map chunk_index events = [1, 2, 3] \<and>
     map length chunks = [100, 100, 50]"
proof -
  let ?http = "\<lambda>(k::nat) (p::nat list).
      Response \<lparr>status_code = 200, retry_after = None, body_text = []\<rparr>"
  have h: "\<forall>k p. \<exists>r. ?http k p = Response r \<and> status_code r < 300" by simp
  from append_blocks_chunks [OF h, of "[0 ..< 250]" "[]"]
  obtain chunks events where
    a: "append_blocks ?http [0 ..< 250] [] [] = (None, [] @ events, chunks)"
    and c: "concat chunks = [0 ..< 250]"
    and n: "length chunks = (length [0 ..< 250 :: nat] + 99) div 100"
    and s: "map chunk_size events = map length chunks"
    and i: "map chunk_index events = [1 ..< Suc (length chunks)]"
    and l: "length [0 ..< 250 :: nat] = 250 \<longrightarrow> map length chunks = [100, 100, 50]"
    by (elim exE conjE) (rule that)
  from l have l': "map length chunks = [100, 100, 50]" by simp
  from n have "length chunks = 3" by simp
  with i have "map chunk_index events = [1, 2, 3]"
    by (simp add: upt_conv_Cons del: upt_Suc)
  with a c s l' show ?thesis by auto
qed

subsection \<open>The equation-candidate score of the example line\<close>

lemma vorticity_line_lower: "lower vorticity_line = vorticity_line"
  by (simp add: vorticity_line_def lower_def lower_cp_def)

lemma vorticity_line_clean: "clean_whitespace vorticity_line = vorticity_line"
  by (simp add: vorticity_line_def clean_whitespace_def strip_def isspace_def)

lemma vorticity_line_number: "trailing_number vorticity_line"
  by (simp add: vorticity_line_def trailing_number_def number_before_def isdigit_def)

lemma vorticity_line_score: "equation_score vorticity_line = 6"
  by (simp add: equation_score_def vorticity_line_lower vorticity_line_number Let_def)
     (simp add: vorticity_line_def py_def EQUATION_SYMBOLS_def)

lemma vorticity_line_lines: "splitlines vorticity_line = [vorticity_line]"
  by (simp add: vorticity_line_def splitlines_def is_linebreak_def)

lemma vorticity_line_equals: "contains vorticity_line (py ''='')"
  by (simp add: vorticity_line_def py_def)

lemma vorticity_line_length: "length vorticity_line = 23"
  by (simp add: vorticity_line_def)

lemma vorticity_line_candidate:
  "equation_line p ([], {}) vorticity_line =
     ([\<lparr>equation = vorticity_line, eq_page = p, eq_score = 6\<rparr>],
      {filter (\<lambda>c. \<not> isspace c) (lower vorticity_line)})"
proof -
  have "vorticity_line \<noteq> []" by (simp add: vorticity_line_def)
  then show ?thesis
    by (simp add: equation_line_def vorticity_line_clean vorticity_line_equals
        vorticity_line_length vorticity_line_score Let_def)
qed

text \<open>
  C7. The example line scores 6 in \<open>extract_equation_candidates\<close>: 1 for the symbol token
  \<open>u\<close>, 2 for the trailing \<open>(4)\<close>, 2 for the symbols of \<open>EQUATION_SYMBOLS\<close> and 1 for the
  arithmetic operators (none of the operator keywords occurs in it). A page made of this line
  yields it as the kept candidate, with page 1 and score 6.
\<close>

theorem vorticity_line_kept:
  "equation_score vorticity_line = 6 \<and>
   extract_equation_candidates [vorticity_line] 12 =
     [\<lparr>equation = vorticity_line, eq_page = 1, eq_score = 6\<rparr>]"
  by (simp add: extract_equation_candidates_def vorticity_line_lines
      vorticity_line_candidate vorticity_line_score)

subsection \<open>The manifest: completion of the run\<close>

lemma probe_extractability_returns:
  assumes "\<forall>cmd. proc e cmd \<noteq> Expired"
  shows "\<exists>r s'. probe_extractability e p staging s = (Inr r, s')"
proof -
  have rc: "\<exists>r. run_command e cmd = Inr r" for cmd
    using assms by (cases "proc e cmd") (auto simp: run_command_def)
  obtain d where d: "run_command e (pdftotext_first_page p) = Inr d" using rc by blast
  show ?thesis
  proof (cases "code d = 0 \<and> strip (stdout d) \<noteq> []")
    case True
    then show ?thesis by (simp add: probe_extractability_def d)
  next
    case False
    let ?sp = "staging @ [stage_name e (last p) s]"
    show ?thesis
    proof (cases "copy2 e p ?sp")
      case (Some exc)
      with False show ?thesis by (auto simp add: probe_extractability_def d Let_def)
    next
      case None
      obtain st where st: "run_command e (pdftotext_first_page ?sp) = Inr st" using rc by blast
      with False None show ?thesis by (auto simp add: probe_extractability_def d Let_def)
    qed
  qed
qed

lemma probe_files_returns:
  assumes "\<forall>cmd. proc e cmd \<noteq> Expired"
  shows "\<exists>new s'. probe_files e pd rr staging pdfs recs s = (Inr (recs @ new), s') \<and>
           map (\<lambda>r. (file_name r, sha256 r)) new =
           map (\<lambda>p. (pdf_name p, sha256_hex e (pdf_bytes p))) pdfs"
proof (induction pdfs arbitrary: recs s)
  case Nil
  then show ?case by simp
next
  case (Cons pdf rest)
  obtain info where i: "run_command e [py ''pdfinfo'', str_path (pd @ [pdf_name pdf])] = Inr info"
    using assms by (cases "proc e [py ''pdfinfo'', str_path (pd @ [pdf_name pdf])]")
      (auto simp: run_command_def)
  obtain r s1 where p: "probe_extractability e (pd @ [pdf_name pdf]) staging s = (Inr r, s1)"
    using probe_extractability_returns [OF assms] by blast
  let ?rec = "\<lparr>file_name = pdf_name pdf,
       absolute_path = str_path (pd @ [pdf_name pdf]),
       relative_path = relative_repo_path (pd @ [pdf_name pdf]) rr,
       sha256 = sha256_hex e (pdf_bytes pdf),
       size_bytes = length (pdf_bytes pdf),
       record_pages = (if code info = 0 then parse_pdfinfo_pages (stdout info) else None),
       extractability_status = fst r,
       extractability_note = snd r\<rparr>"
  from Cons.IH [of "recs @ [?rec]" s1] obtain new s' where
    n: "probe_files e pd rr staging rest (recs @ [?rec]) s1 = (Inr ((recs @ [?rec]) @ new), s')"
       "map (\<lambda>r. (file_name r, sha256 r)) new =
        map (\<lambda>p. (pdf_name p, sha256_hex e (pdf_bytes p))) rest"
    by blast
  have "probe_files e pd rr staging (pdf # rest) recs s = (Inr (recs @ (?rec # new)), s')"
    using n(1) by (simp add: i p Let_def)
  moreover have "map (\<lambda>r. (file_name r, sha256 r)) (?rec # new) =
        map (\<lambda>p. (pdf_name p, sha256_hex e (pdf_bytes p))) (pdf # rest)"
    using n(2) by simp
  ultimately show ?case by blast
qed

lemma build_manifest_returns:
  assumes "\<forall>cmd. proc e cmd \<noteq> Expired"
  shows "\<exists>all unique s' recs.
           build_manifest e pd od rr listing s = (Inr (all, unique), s') \<and>
           map (\<lambda>r. (file_name r, sha256 r)) recs =
             map (\<lambda>p. (pdf_name p, sha256_hex e (pdf_bytes p)))
                 (sort_key (\<lambda>p. lower (pdf_name p)) listing) \<and>
           records all = recs \<and>
           papers unique = unique_records_of recs \<and>
           total_files all = length recs \<and>
           unique_files all = length (unique_records_of recs) \<and>
           duplicate_groups all =
             length (filter (\<lambda>g. 1 < length g) (map alias_file_names (unique_records_of recs)))"
proof -
  let ?st = "od @ [py ''temp_probe'']"
  from probe_files_returns [OF assms, of pd rr ?st
      "sort_key (\<lambda>p. lower (pdf_name p)) listing" "[]" "ensure_dir ?st s"]
  obtain recs s2 where
    r: "probe_files e pd rr ?st (sort_key (\<lambda>p. lower (pdf_name p)) listing) []
          (ensure_dir ?st s) = (Inr recs, s2)"
       "map (\<lambda>r. (file_name r, sha256 r)) recs =
        map (\<lambda>p. (pdf_name p, sha256_hex e (pdf_bytes p)))
            (sort_key (\<lambda>p. lower (pdf_name p)) listing)"
    by auto
  show ?thesis
    using r(2) by (simp add: build_manifest_def Let_def r(1))
qed

subsection \<open>The manifest: buckets by digest\<close>

lemma setdefault_append_keys:
  "map fst (setdefault_append k v g) = (if k \<in> fst ` set g then map fst g else map fst g @ [k])"
  by (induction k v g rule: setdefault_append.induct) force+

lemma setdefault_append_map_of:
  "map_of (setdefault_append k v g) =
     (map_of g)(k \<mapsto> (case map_of g k of None \<Rightarrow> [v] | Some vs \<Rightarrow> vs @ [v]))"
  by (induction k v g rule: setdefault_append.induct) (auto simp: fun_eq_iff)

lemma group_by_sha256_snoc:
  "group_by_sha256 (recs @ [r]) = setdefault_append (sha256 r) r (group_by_sha256 recs)"
  by (simp add: group_by_sha256_def)

lemma group_by_sha256_distinct: "distinct (map fst (group_by_sha256 recs))"
proof (induction recs rule: rev_induct)
  case Nil
  then show ?case by (simp add: group_by_sha256_def)
next
  case (snoc r recs)
  then show ?case by (simp add: group_by_sha256_snoc setdefault_append_keys)
qed

lemma group_by_sha256_map_of:
  "map_of (group_by_sha256 recs) k =
     (if k \<in> sha256 ` set recs then Some (filter (\<lambda>r. sha256 r = k) recs) else None)"
proof (induction recs arbitrary: k rule: rev_induct)
  case Nil
  then show ?case by (simp add: group_by_sha256_def)
next
  case (snoc r recs)
  have e: "sha256 r \<notin> sha256 ` set recs \<Longrightarrow> filter (\<lambda>x. sha256 x = sha256 r) recs = []"
    by (simp add: filter_empty_conv) (metis imageI)
  show ?case
  proof (cases "k = sha256 r")
    case True
    then show ?thesis
      using snoc [of k] e by (simp add: group_by_sha256_snoc setdefault_append_map_of)
  next
    case False
    then show ?thesis
      using snoc [of k] by (simp add: group_by_sha256_snoc setdefault_append_map_of)
  qed
qed

lemma group_by_sha256_member:
  "(k, grp) \<in> set (group_by_sha256 recs) \<longleftrightarrow>
     k \<in> sha256 ` set recs \<and> grp = filter (\<lambda>r. sha256 r = k) recs"
proof -
  have "(k, grp) \<in> set (group_by_sha256 recs) \<longleftrightarrow> map_of (group_by_sha256 recs) k = Some grp"
    using group_by_sha256_distinct [of recs] by simp
  then show ?thesis
    by (simp add: group_by_sha256_map_of eq_commute)
qed

lemma unique_records_of_length:
  "length (unique_records_of recs) = length (group_by_sha256 recs)"
  by (simp add: unique_records_of_def Let_def del: upt_Suc)

lemma unique_records_of_nth:
  assumes "i < length (group_by_sha256 recs)"
  shows "unique_records_of recs ! i =
         unique_record_of (Suc i) (sort_key group_key (group_by_sha256 recs) ! i)"
  using assms by (simp add: unique_records_of_def Let_def del: upt_Suc)

lemma unique_record_of_fields:
  "alias_file_names (unique_record_of idx kv) =
     map file_name (sort_key (\<lambda>r. lower (file_name r)) (snd kv))"
  "duplicate_count (unique_record_of idx kv) = length (snd kv) - 1"
  "unique_sha256 (unique_record_of idx kv) = fst kv"
  "paper_id (unique_record_of idx kv) = format_paper_id idx (fst kv)"
  by (simp_all add: unique_record_of_def Let_def)

lemma sorted_groups_set:
  "set (sort_key group_key (group_by_sha256 recs)) = set (group_by_sha256 recs)"
  by simp

lemma sorted_groups_distinct:
  "distinct (map fst (sort_key group_key (group_by_sha256 recs)))"
proof -
  have "mset (map fst (sort_key group_key (group_by_sha256 recs))) =
        mset (map fst (group_by_sha256 recs))"
    by simp
  from mset_eq_imp_distinct_iff [OF this] show ?thesis
    using group_by_sha256_distinct [of recs] by blast
qed

lemma unique_records_of_bucket:
  assumes "r \<in> set recs"
  shows "\<exists>i < length (unique_records_of recs).
     unique_sha256 (unique_records_of recs ! i) = sha256 r \<and>
     mset (alias_file_names (unique_records_of recs ! i)) =
       mset (map file_name (filter (\<lambda>x. sha256 x = sha256 r) recs)) \<and>
     duplicate_count (unique_records_of recs ! i) =
       length (filter (\<lambda>x. sha256 x = sha256 r) recs) - 1 \<and>
     (\<forall>j < length (unique_records_of recs).
        unique_sha256 (unique_records_of recs ! j) = sha256 r \<longrightarrow> j = i)"
proof -
  let ?items = "sort_key group_key (group_by_sha256 recs)"
  let ?grp = "filter (\<lambda>x. sha256 x = sha256 r) recs"
  have len: "length (unique_records_of recs) = length ?items"
    by (simp add: unique_records_of_length)
  have nth: "unique_records_of recs ! j = unique_record_of (Suc j) (?items ! j)"
    if "j < length ?items" for j
    using that unique_records_of_nth [of j recs] by simp
  have "(sha256 r, ?grp) \<in> set ?items"
    using assms by (simp add: group_by_sha256_member)
  then have "\<exists>i < length ?items. ?items ! i = (sha256 r, ?grp)"
    by (simp only: in_set_conv_nth)
  then obtain i where i: "i < length ?items" "?items ! i = (sha256 r, ?grp)"
    by blast
  have uniq: "j = i" if "j < length ?items" "fst (?items ! j) = sha256 r" for j
  proof -
    have e: "map fst ?items ! j = map fst ?items ! i" using that i by simp
    have l: "j < length (map fst ?items)" "i < length (map fst ?items)"
      using that(1) i(1) by simp_all
    show ?thesis
      using nth_eq_iff_index_eq [OF sorted_groups_distinct [of recs] l] e by blast
  qed
  have ui: "unique_records_of recs ! i = unique_record_of (Suc i) (sha256 r, ?grp)"
    using nth [OF i(1)] i(2) by simp
  have a: "mset (alias_file_names (unique_records_of recs ! i)) = mset (map file_name ?grp)"
    by (simp add: ui unique_record_of_fields)
  have b: "duplicate_count (unique_records_of recs ! i) = length ?grp - 1"
    by (simp add: ui unique_record_of_fields)
  have c: "unique_sha256 (unique_records_of recs ! i) = sha256 r"
    by (simp add: ui unique_record_of_fields)
  have d: "\<forall>j < length (unique_records_of recs).
        unique_sha256 (unique_records_of recs ! j) = sha256 r \<longrightarrow> j = i"
  proof (intro allI impI)
    fix j assume j: "j < length (unique_records_of recs)"
      "unique_sha256 (unique_records_of recs ! j) = sha256 r"
    from j(1) have j': "j < length ?items" by (simp add: len)
    from j(2) have "fst (?items ! j) = sha256 r"
      by (simp add: nth [OF j'] unique_record_of_fields)
    with j' show "j = i" by (rule uniq)
  qed
  from i(1) have "i < length (unique_records_of recs)" by (simp add: len)
  with a b c d show ?thesis by blast
qed


lemma alias_origin:
  assumes "j < length (unique_records_of recs)"
      and "n \<in> set (alias_file_names (unique_records_of recs ! j))"
  shows "\<exists>x \<in> set recs. file_name x = n \<and> sha256 x = unique_sha256 (unique_records_of recs ! j)"
proof -
  let ?items = "sort_key group_key (group_by_sha256 recs)"
  have j: "j < length ?items" using assms(1) by (simp add: unique_records_of_length)
  then have u: "unique_records_of recs ! j = unique_record_of (Suc j) (?items ! j)"
    using unique_records_of_nth [of j recs] by simp
  have "?items ! j \<in> set ?items"
    using j by (rule nth_mem)
  then have "?items ! j \<in> set (group_by_sha256 recs)"
    by simp
  then have g: "snd (?items ! j) = filter (\<lambda>x. sha256 x = fst (?items ! j)) recs"
    using group_by_sha256_member [of "fst (?items ! j)" "snd (?items ! j)" recs] by simp
  from assms(2) have "n \<in> file_name ` set (snd (?items ! j))"
    by (simp add: u unique_record_of_fields)
  then obtain x where x: "x \<in> set (snd (?items ! j))" "file_name x = n"
    by auto
  from x(1) have "x \<in> set recs \<and> sha256 x = fst (?items ! j)"
    by (subst (asm) g) simp
  with x(2) show ?thesis by (auto simp: u unique_record_of_fields)
qed


lemma sorted_listing_filter:
  "mset (map pdf_name (filter P (sort_key k listing))) = mset (map pdf_name (filter P listing))"
  by (simp add: mset_filter)

lemma records_of_listing_names:
  assumes "map (\<lambda>r. (file_name r, sha256 r)) recs = map (\<lambda>p. (pdf_name p, H p)) ps"
  shows "map file_name (filter (\<lambda>x. sha256 x = h) recs) =
         map pdf_name (filter (\<lambda>p. H p = h) ps)"
  using assms
proof (induction recs arbitrary: ps)
  case Nil
  then show ?case by simp
next
  case (Cons r recs)
  then obtain p ps' where ps: "ps = p # ps'" by (cases ps) auto
  with Cons.prems have "file_name r = pdf_name p" "sha256 r = H p"
    "map (\<lambda>r. (file_name r, sha256 r)) recs = map (\<lambda>p. (pdf_name p, H p)) ps'"
    by simp_all
  with Cons.IH [of ps'] show ?case by (simp add: ps)
qed



lemma abc_names_order:
  "lower (py ''a.pdf'') < lower (py ''b.pdf'')" "lower (py ''b.pdf'') < lower (py ''c.pdf'')"
  "lower (py ''a.pdf'') < lower (py ''c.pdf'')"
  "py ''a.pdf'' < py ''b.pdf''"
  by (simp_all add: py_def lower_def lower_cp_def)

lemma abc_sorted:
  assumes "mset listing =
     {#\<lparr>pdf_name = py ''a.pdf'', pdf_bytes = x\<rparr>, \<lparr>pdf_name = py ''b.pdf'', pdf_bytes = x\<rparr>,
       \<lparr>pdf_name = py ''c.pdf'', pdf_bytes = y\<rparr>#}"
  shows "sort_key (\<lambda>p. lower (pdf_name p)) listing =
     [\<lparr>pdf_name = py ''a.pdf'', pdf_bytes = x\<rparr>, \<lparr>pdf_name = py ''b.pdf'', pdf_bytes = x\<rparr>,
      \<lparr>pdf_name = py ''c.pdf'', pdf_bytes = y\<rparr>]"
proof (rule properties_for_sort_key)
  let ?a = "\<lparr>pdf_name = py ''a.pdf'', pdf_bytes = x\<rparr>"
  let ?b = "\<lparr>pdf_name = py ''b.pdf'', pdf_bytes = x\<rparr>"
  let ?c = "\<lparr>pdf_name = py ''c.pdf'', pdf_bytes = y\<rparr>"
  show "mset [?a, ?b, ?c] = mset listing" using assms by simp
  show "sorted (map (\<lambda>p. lower (pdf_name p)) [?a, ?b, ?c])"
    using abc_names_order by (simp add: less_imp_le)
  fix k assume k: "k \<in> set [?a, ?b, ?c]"
  have ne: "lower (py ''a.pdf'') \<noteq> lower (py ''b.pdf'')" "lower (py ''b.pdf'') \<noteq> lower (py ''c.pdf'')"
     "lower (py ''a.pdf'') \<noteq> lower (py ''c.pdf'')"
    using abc_names_order by simp_all
  have "mset (filter (\<lambda>p. lower (pdf_name k) = lower (pdf_name p)) listing) =
        mset (filter (\<lambda>p. lower (pdf_name k) = lower (pdf_name p)) [?a, ?b, ?c])"
    using assms by (simp only: mset_filter) simp
  moreover have "filter (\<lambda>p. lower (pdf_name k) = lower (pdf_name p)) [?a, ?b, ?c] = [k]"
    using k ne by auto
  ultimately have "mset (filter (\<lambda>p. lower (pdf_name k) = lower (pdf_name p)) listing) = {#k#}"
    by simp
  then have "filter (\<lambda>p. lower (pdf_name k) = lower (pdf_name p)) listing = [k]"
    by (simp only: mset_single_iff)
  with \<open>filter (\<lambda>p. lower (pdf_name k) = lower (pdf_name p)) [?a, ?b, ?c] = [k]\<close>
  show "filter (\<lambda>p. lower (pdf_name k) = lower (pdf_name p)) [?a, ?b, ?c] =
        filter (\<lambda>p. lower (pdf_name k) = lower (pdf_name p)) listing"
    by simp
qed

lemma abc_unique:
  assumes "map (\<lambda>r. (file_name r, sha256 r)) recs =
             [(py ''a.pdf'', h), (py ''b.pdf'', h), (py ''c.pdf'', h')]"
      and "h \<noteq> h'"
  shows "map alias_file_names (unique_records_of recs) = [[py ''a.pdf'', py ''b.pdf''], [py ''c.pdf'']]"
    and "map duplicate_count (unique_records_of recs) = [1, 0]"
proof -
  from assms(1) obtain r1 r2 r3 where recs: "recs = [r1, r2, r3]"
    and n: "file_name r1 = py ''a.pdf''" "file_name r2 = py ''b.pdf''" "file_name r3 = py ''c.pdf''"
    and h: "sha256 r1 = h" "sha256 r2 = h" "sha256 r3 = h'"
    by (auto simp: map_eq_Cons_conv)
  have g: "group_by_sha256 recs = [(h, [r1, r2]), (h', [r3])]"
    using assms(2) by (simp add: group_by_sha256_def recs h)
  have k1: "group_key (h, [r1, r2]) = lower (py ''a.pdf'')"
    using abc_names_order(4) by (simp add: group_key_def n less_imp_le)
  have k2: "group_key (h', [r3]) = lower (py ''c.pdf'')"
    by (simp add: group_key_def n)
  have s: "sort_key group_key (group_by_sha256 recs) = [(h, [r1, r2]), (h', [r3])]"
    using abc_names_order(3) by (simp add: g k1 k2 less_imp_le)
  have u: "unique_records_of recs =
      [unique_record_of (Suc 0) (h, [r1, r2]), unique_record_of (Suc (Suc 0)) (h', [r3])]"
    by (simp add: unique_records_of_def s upt_rec)
  have o: "sort_key (\<lambda>r. lower (file_name r)) [r1, r2] = [r1, r2]"
    using abc_names_order(1) by (simp add: n less_imp_le)
  show "map alias_file_names (unique_records_of recs) = [[py ''a.pdf'', py ''b.pdf''], [py ''c.pdf'']]"
    using abc_names_order(1) by (simp add: u unique_record_of_fields n less_imp_le)
  show "map duplicate_count (unique_records_of recs) = [1, 0]"
    by (simp add: u unique_record_of_fields)
qed

lemma bucket_of_file:
  assumes rel: "map (\<lambda>r. (file_name r, sha256 r)) recs =
                map (\<lambda>p. (pdf_name p, hx (pdf_bytes p))) (sort_key k listing)"
      and dn: "distinct (map pdf_name listing)"
      and inj: "inj_on hx (pdf_bytes ` set listing)"
      and f: "f \<in> set listing"
  shows "\<exists>i < length (unique_records_of recs).
        mset (alias_file_names (unique_records_of recs ! i)) =
          mset (map pdf_name (filter (\<lambda>g. pdf_bytes g = pdf_bytes f) listing)) \<and>
        duplicate_count (unique_records_of recs ! i) =
          length (filter (\<lambda>g. pdf_bytes g = pdf_bytes f) listing) - 1 \<and>
        (\<forall>j < length (unique_records_of recs).
           pdf_name f \<in> set (alias_file_names (unique_records_of recs ! j)) \<longrightarrow> j = i)"
proof -
  let ?H = "\<lambda>p. hx (pdf_bytes p)"
  let ?sorted = "sort_key k listing"
  let ?same = "filter (\<lambda>g. pdf_bytes g = pdf_bytes f) listing"
  have pairs: "set (map (\<lambda>r. (file_name r, sha256 r)) recs) = (\<lambda>p. (pdf_name p, ?H p)) ` set listing"
    by (simp only: rel) simp
  have "(pdf_name f, ?H f) \<in> set (map (\<lambda>r. (file_name r, sha256 r)) recs)"
    using f by (simp only: pairs) blast
  then obtain r where r: "r \<in> set recs" "file_name r = pdf_name f" "sha256 r = ?H f"
    by auto
  have same: "filter (\<lambda>p. ?H p = ?H f) listing = ?same"
  proof (rule filter_cong [OF refl])
    fix p assume "p \<in> set listing"
    with inj f show "(?H p = ?H f) = (pdf_bytes p = pdf_bytes f)"
      by (auto dest: inj_onD)
  qed
  have names: "mset (map file_name (filter (\<lambda>x. sha256 x = sha256 r) recs)) = mset (map pdf_name ?same)"
  proof -
    have "map file_name (filter (\<lambda>x. sha256 x = ?H f) recs) =
          map pdf_name (filter (\<lambda>p. ?H p = ?H f) ?sorted)"
      by (rule records_of_listing_names [OF rel])
    then have "mset (map file_name (filter (\<lambda>x. sha256 x = ?H f) recs)) =
          mset (map pdf_name (filter (\<lambda>p. ?H p = ?H f) listing))"
      by (simp only: sorted_listing_filter)
    then show ?thesis by (simp only: r(3) same)
  qed
  then have count: "length (filter (\<lambda>x. sha256 x = sha256 r) recs) = length ?same"
    by (metis length_map size_mset)
  from unique_records_of_bucket [OF r(1)] obtain i where
    i: "i < length (unique_records_of recs)"
       "unique_sha256 (unique_records_of recs ! i) = sha256 r"
       "mset (alias_file_names (unique_records_of recs ! i)) =
          mset (map file_name (filter (\<lambda>x. sha256 x = sha256 r) recs))"
       "duplicate_count (unique_records_of recs ! i) =
          length (filter (\<lambda>x. sha256 x = sha256 r) recs) - 1"
       "\<forall>j < length (unique_records_of recs).
          unique_sha256 (unique_records_of recs ! j) = sha256 r \<longrightarrow> j = i"
    by blast
  have only: "j = i"
    if j: "j < length (unique_records_of recs)"
          "pdf_name f \<in> set (alias_file_names (unique_records_of recs ! j))" for j
  proof -
    from alias_origin [OF j] obtain x where
      x: "x \<in> set recs" "file_name x = pdf_name f"
         "sha256 x = unique_sha256 (unique_records_of recs ! j)"
      by blast
    from x(1) have "(file_name x, sha256 x) \<in> set (map (\<lambda>r. (file_name r, sha256 r)) recs)"
      by simp
    then obtain p where p: "p \<in> set listing" "pdf_name p = file_name x" "?H p = sha256 x"
      by (simp only: pairs) auto
    from p(1,2) x(2) dn f have "p = f"
      by (metis distinct_map inj_onD)
    with p(3) x(3) r(3) have "unique_sha256 (unique_records_of recs ! j) = sha256 r" by simp
    with i(5) j(1) show ?thesis by blast
  qed
  show ?thesis
    using i(1) i(3) i(4) names count only by (intro exI [of _ i]) auto
qed

text \<open>
  C1. When no external command times out, \<open>build_manifest\<close> returns, and for a directory
  listing with distinct names whose contents have distinct digests the following holds for
  every input file: exactly one unique record lists the file's name among its aliases; the
  aliases of that record are the names of all the input files with the same bytes as the
  file, each once; and its \<open>duplicate_count\<close> is the number of these files minus one. For
  the three files \<open>a.pdf\<close>, \<open>b.pdf\<close> with the bytes of \<open>a.pdf\<close>, and \<open>c.pdf\<close> with other
  bytes, listed in any order, the manifest has \<open>total_files = 3\<close>, \<open>unique_files = 2\<close>
  and \<open>duplicate_groups = 1\<close>, and the first unique record has the aliases
  \<open>["a.pdf", "b.pdf"]\<close> and \<open>duplicate_count = 1\<close>.
\<close>

theorem build_manifest_groups_identical_files:
  assumes "\<forall>cmd. proc e cmd \<noteq> Expired"
      and "distinct (map pdf_name listing)"
      and "inj_on (sha256_hex e) (pdf_bytes ` set listing)"
  shows "\<exists>all unique s'.
     build_manifest e pd od rr listing s = (Inr (all, unique), s') \<and>
     (\<forall>f \<in> set listing. \<exists>i < length (papers unique).
        mset (alias_file_names (papers unique ! i)) =
          mset (map pdf_name (filter (\<lambda>g. pdf_bytes g = pdf_bytes f) listing)) \<and>
        duplicate_count (papers unique ! i) =
          length (filter (\<lambda>g. pdf_bytes g = pdf_bytes f) listing) - 1 \<and>
        (\<forall>j < length (papers unique).
           pdf_name f \<in> set (alias_file_names (papers unique ! j)) \<longrightarrow> j = i)) \<and>
     (\<forall>x y. mset listing =
          {#\<lparr>pdf_name = py ''a.pdf'', pdf_bytes = x\<rparr>, \<lparr>pdf_name = py ''b.pdf'', pdf_bytes = x\<rparr>,
            \<lparr>pdf_name = py ''c.pdf'', pdf_bytes = y\<rparr>#} \<and> x \<noteq> y \<longrightarrow>
        total_files all = 3 \<and> unique_files all = 2 \<and> duplicate_groups all = 1 \<and>
        map alias_file_names (papers unique) = [[py ''a.pdf'', py ''b.pdf''], [py ''c.pdf'']] \<and>
        map duplicate_count (papers unique) = [1, 0])"
proof -
  let ?H = "\<lambda>p. sha256_hex e (pdf_bytes p)"
  let ?k = "\<lambda>p. lower (pdf_name p)"
  from build_manifest_returns [OF assms(1), of pd od rr listing s]
  obtain all unique s' recs where
    bm: "build_manifest e pd od rr listing s = (Inr (all, unique), s')"
    and rel: "map (\<lambda>r. (file_name r, sha256 r)) recs = map (\<lambda>p. (pdf_name p, ?H p)) (sort_key ?k listing)"
    and pap: "papers unique = unique_records_of recs"
    and tot: "total_files all = length recs"
    and uni: "unique_files all = length (unique_records_of recs)"
    and dup: "duplicate_groups all =
             length (filter (\<lambda>g. 1 < length g) (map alias_file_names (unique_records_of recs)))"
    by blast
  have general: "\<forall>f \<in> set listing. \<exists>i < length (papers unique).
        mset (alias_file_names (papers unique ! i)) =
          mset (map pdf_name (filter (\<lambda>g. pdf_bytes g = pdf_bytes f) listing)) \<and>
        duplicate_count (papers unique ! i) =
          length (filter (\<lambda>g. pdf_bytes g = pdf_bytes f) listing) - 1 \<and>
        (\<forall>j < length (papers unique).
           pdf_name f \<in> set (alias_file_names (papers unique ! j)) \<longrightarrow> j = i)"
    unfolding pap using bucket_of_file [OF rel assms(2) assms(3)] by blast
  have example: "total_files all = 3 \<and> unique_files all = 2 \<and> duplicate_groups all = 1 \<and>
        map alias_file_names (papers unique) = [[py ''a.pdf'', py ''b.pdf''], [py ''c.pdf'']] \<and>
        map duplicate_count (papers unique) = [1, 0]"
    if m: "mset listing =
          {#\<lparr>pdf_name = py ''a.pdf'', pdf_bytes = x\<rparr>, \<lparr>pdf_name = py ''b.pdf'', pdf_bytes = x\<rparr>,
            \<lparr>pdf_name = py ''c.pdf'', pdf_bytes = y\<rparr>#}" and ne: "x \<noteq> y" for x y
  proof -
    have "set_mset (mset listing) = {\<lparr>pdf_name = py ''a.pdf'', pdf_bytes = x\<rparr>,
        \<lparr>pdf_name = py ''b.pdf'', pdf_bytes = x\<rparr>, \<lparr>pdf_name = py ''c.pdf'', pdf_bytes = y\<rparr>}"
      by (simp only: m) simp
    then have mem: "pdf_bytes ` set listing = {x, y}" by auto
    with assms(3) ne have hne: "sha256_hex e x \<noteq> sha256_hex e y"
      by (auto dest: inj_onD)
    have rel': "map (\<lambda>r. (file_name r, sha256 r)) recs =
          [(py ''a.pdf'', sha256_hex e x), (py ''b.pdf'', sha256_hex e x),
           (py ''c.pdf'', sha256_hex e y)]"
      by (simp add: rel abc_sorted [OF m])
    then have "length (map (\<lambda>r. (file_name r, sha256 r)) recs) = 3" by simp
    then have l: "length recs = 3" by simp
    from abc_unique [OF rel' hne] have
      al: "map alias_file_names (unique_records_of recs) = [[py ''a.pdf'', py ''b.pdf''], [py ''c.pdf'']]"
      and dc: "map duplicate_count (unique_records_of recs) = [1, 0]"
      by simp_all
    from dc have "length (map duplicate_count (unique_records_of recs)) = 2" by simp
    then have l2: "length (unique_records_of recs) = 2" by simp
    show ?thesis
      by (simp add: tot uni dup pap l l2 al dc)
  qed
  from bm general example show ?thesis by blast
qed

theorem build_manifest_groups_identical_files_witness:
  "\<exists>all unique s'.
     build_manifest example_env [py ''repo'', py ''papers''] [py ''repo'', py ''out''] [py ''repo'']
       abc_listing start_fs = (Inr (all, unique), s') \<and>
     total_files all = 3 \<and> unique_files all = 2 \<and> duplicate_groups all = 1 \<and>
     map alias_file_names (papers unique) = [[py ''a.pdf'', py ''b.pdf''], [py ''c.pdf'']] \<and>
     map duplicate_count (papers unique) = [1, 0]"
proof -
  have ne: "vortex_bytes \<noteq> tsunami_bytes"
    by (simp add: vortex_bytes_def tsunami_bytes_def)
  have h1: "\<forall>cmd. proc example_env cmd \<noteq> Expired"
    by (simp add: example_env_def example_proc_def)
  have h2: "distinct (map pdf_name abc_listing)"
    by (simp add: abc_listing_def py_def)
  have ne': "tsunami_bytes \<noteq> vortex_bytes" using ne by simp
  have "example_sha256 vortex_bytes \<noteq> example_sha256 tsunami_bytes"
    by (simp add: example_sha256_def ne' py_def)
  then have h3: "inj_on (sha256_hex example_env) (pdf_bytes ` set abc_listing)"
    by (auto simp: inj_on_def abc_listing_def example_env_def)
  have m: "mset abc_listing =
          {#\<lparr>pdf_name = py ''a.pdf'', pdf_bytes = vortex_bytes\<rparr>,
            \<lparr>pdf_name = py ''b.pdf'', pdf_bytes = vortex_bytes\<rparr>,
            \<lparr>pdf_name = py ''c.pdf'', pdf_bytes = tsunami_bytes\<rparr>#}"
    by (simp add: abc_listing_def)
  from build_manifest_groups_identical_files [OF h1 h2 h3,
      of "[py ''repo'', py ''papers'']" "[py ''repo'', py ''out'']" "[py ''repo'']" start_fs]
  obtain all unique s' where
    bm: "build_manifest example_env [py ''repo'', py ''papers''] [py ''repo'', py ''out'']
           [py ''repo''] abc_listing start_fs = (Inr (all, unique), s')"
    and ex: "\<forall>x y. mset abc_listing =
          {#\<lparr>pdf_name = py ''a.pdf'', pdf_bytes = x\<rparr>, \<lparr>pdf_name = py ''b.pdf'', pdf_bytes = x\<rparr>,
            \<lparr>pdf_name = py ''c.pdf'', pdf_bytes = y\<rparr>#} \<and> x \<noteq> y \<longrightarrow>
        total_files all = 3 \<and> unique_files all = 2 \<and> duplicate_groups all = 1 \<and>
        map alias_file_names (papers unique) = [[py ''a.pdf'', py ''b.pdf''], [py ''c.pdf'']] \<and>
        map duplicate_count (papers unique) = [1, 0]"
    by (elim exE conjE) (rule that)
  from ex m ne have "total_files all = 3 \<and> unique_files all = 2 \<and> duplicate_groups all = 1 \<and>
        map alias_file_names (papers unique) = [[py ''a.pdf'', py ''b.pdf''], [py ''c.pdf'']] \<and>
        map duplicate_count (papers unique) = [1, 0]"
    by blast
  with bm have "build_manifest example_env [py ''repo'', py ''papers''] [py ''repo'', py ''out'']
           [py ''repo''] abc_listing start_fs = (Inr (all, unique), s') \<and>
        total_files all = 3 \<and> unique_files all = 2 \<and> duplicate_groups all = 1 \<and>
        map alias_file_names (papers unique) = [[py ''a.pdf'', py ''b.pdf''], [py ''c.pdf'']] \<and>
        map duplicate_count (papers unique) = [1, 0]"
    by (rule conjI)
  then show ?thesis by (intro exI)
qed

subsection \<open>The manifest: order of the buckets\<close>

lemma example_sha256_values:
  "example_sha256 vortex_bytes = py ''bee2a6c3f6caf342b4a498eb656940e7bb54a98ac92cae40059438e4c75f57cc''"
  "example_sha256 tsunami_bytes = py ''8a59bacaf12f505c480c55915c6cecc488e7eb2432629f8808064930cec2b595''"
  by (simp_all add: example_sha256_def vortex_bytes_def tsunami_bytes_def)

lemma mixed_sorted:
  "sort_key (\<lambda>p. lower (pdf_name p)) mixed_case_listing =
     [\<lparr>pdf_name = py ''a.pdf'', pdf_bytes = vortex_bytes\<rparr>,
      \<lparr>pdf_name = py ''ab.pdf'', pdf_bytes = tsunami_bytes\<rparr>,
      \<lparr>pdf_name = py ''B.pdf'', pdf_bytes = vortex_bytes\<rparr>]"
  by (simp add: mixed_case_listing_def lower_def lower_cp_def py_def)

lemma mixed_unique:
  assumes "map file_name recs = [py ''a.pdf'', py ''ab.pdf'', py ''B.pdf'']"
      and "map sha256 recs = [example_sha256 vortex_bytes, example_sha256 tsunami_bytes,
                              example_sha256 vortex_bytes]"
  shows "map paper_id (unique_records_of recs) = [py ''paper_001_8a59baca'', py ''paper_002_bee2a6c3'']"
    and "map canonical_file_name (unique_records_of recs) = [py ''ab.pdf'', py ''a.pdf'']"
    and "map alias_file_names (unique_records_of recs) = [[py ''ab.pdf''], [py ''a.pdf'', py ''B.pdf'']]"
proof -
  from assms obtain r1 r2 r3 where recs: "recs = [r1, r2, r3]"
    and n: "file_name r1 = py ''a.pdf''" "file_name r2 = py ''ab.pdf''" "file_name r3 = py ''B.pdf''"
    and h: "sha256 r1 = example_sha256 vortex_bytes" "sha256 r2 = example_sha256 tsunami_bytes"
           "sha256 r3 = example_sha256 vortex_bytes"
    by (auto simp: map_eq_Cons_conv)
  have ne: "example_sha256 vortex_bytes \<noteq> example_sha256 tsunami_bytes"
    by (simp add: example_sha256_values py_def)
  have g: "group_by_sha256 recs =
      [(example_sha256 vortex_bytes, [r1, r3]), (example_sha256 tsunami_bytes, [r2])]"
    using ne by (simp add: group_by_sha256_def recs h)
  have k1: "group_key (example_sha256 vortex_bytes, [r1, r3]) = py ''b.pdf''"
    by (simp add: group_key_def n) (simp add: py_def lower_def lower_cp_def)
  have k2: "group_key (example_sha256 tsunami_bytes, [r2]) = py ''ab.pdf''"
    by (simp add: group_key_def n) (simp add: py_def lower_def lower_cp_def)
  have lt: "py ''ab.pdf'' < py ''b.pdf''" by (simp add: py_def)
  have s: "sort_key group_key (group_by_sha256 recs) =
      [(example_sha256 tsunami_bytes, [r2]), (example_sha256 vortex_bytes, [r1, r3])]"
    using lt by (simp add: g k1 k2 not_le)
  have u: "unique_records_of recs =
      [unique_record_of (Suc 0) (example_sha256 tsunami_bytes, [r2]),
       unique_record_of (Suc (Suc 0)) (example_sha256 vortex_bytes, [r1, r3])]"
    by (simp add: unique_records_of_def s upt_rec)
  have le: "lower (py ''a.pdf'') \<le> lower (py ''B.pdf'')"
    by (simp add: py_def lower_def lower_cp_def)
  have o: "sort_key (\<lambda>r. lower (file_name r)) [r1, r3] = [r1, r3]"
    using le by (simp add: n)
  have id1: "format_paper_id (Suc 0) (example_sha256 tsunami_bytes) = py ''paper_001_8a59baca''"
    by (simp add: format_paper_id_def example_sha256_values str_nat.simps)
       (simp add: py_def numeral_2_eq_2)
  have id2: "format_paper_id (Suc (Suc 0)) (example_sha256 vortex_bytes) = py ''paper_002_bee2a6c3''"
    by (simp add: format_paper_id_def example_sha256_values str_nat.simps)
       (simp add: py_def numeral_2_eq_2)
  show "map paper_id (unique_records_of recs) = [py ''paper_001_8a59baca'', py ''paper_002_bee2a6c3'']"
    by (simp add: u unique_record_of_def Let_def id1 id2)
  show "map canonical_file_name (unique_records_of recs) = [py ''ab.pdf'', py ''a.pdf'']"
    using le by (simp add: u unique_record_of_def Let_def n)
  show "map alias_file_names (unique_records_of recs) = [[py ''ab.pdf''], [py ''a.pdf'', py ''B.pdf'']]"
    using le by (simp add: u unique_record_of_def Let_def n)
qed


text \<open>
  C2, on a listing where the claim fails. The files \<open>B.pdf\<close> and \<open>a.pdf\<close> hold the same
  bytes and \<open>ab.pdf\<close> holds others. The case-insensitive minimum name of the first bucket
  is \<open>a.pdf\<close>, which is below \<open>ab.pdf\<close>, yet the bucket of \<open>ab.pdf\<close> comes first and gets
  \<open>paper_001\<close>: the sort key of a bucket is the lower-cased minimum of the names compared
  with case, here \<open>b.pdf\<close> from \<open>B.pdf\<close>.
\<close>

theorem bucket_order_mixed_case:
  "\<exists>all unique s'.
     build_manifest example_env [py ''repo'', py ''papers''] [py ''repo'', py ''out'']
       [py ''repo''] mixed_case_listing start_fs = (Inr (all, unique), s') \<and>
     map paper_id (papers unique) = [py ''paper_001_8a59baca'', py ''paper_002_bee2a6c3''] \<and>
     map canonical_file_name (papers unique) = [py ''ab.pdf'', py ''a.pdf''] \<and>
     map alias_file_names (papers unique) = [[py ''ab.pdf''], [py ''a.pdf'', py ''B.pdf'']] \<and>
     lower (py ''a.pdf'') < lower (py ''ab.pdf'')"
proof -
  have h1: "\<forall>cmd. proc example_env cmd \<noteq> Expired"
    by (simp add: example_env_def example_proc_def)
  from build_manifest_returns [OF h1, of "[py ''repo'', py ''papers'']" "[py ''repo'', py ''out'']"
      "[py ''repo'']" mixed_case_listing start_fs]
  obtain all unique s' recs where
    bm: "build_manifest example_env [py ''repo'', py ''papers''] [py ''repo'', py ''out'']
           [py ''repo''] mixed_case_listing start_fs = (Inr (all, unique), s')"
    and rel: "map (\<lambda>r. (file_name r, sha256 r)) recs =
              map (\<lambda>p. (pdf_name p, sha256_hex example_env (pdf_bytes p)))
                  (sort_key (\<lambda>p. lower (pdf_name p)) mixed_case_listing)"
    and pap: "papers unique = unique_records_of recs"
    by blast
  have rel': "map (\<lambda>r. (file_name r, sha256 r)) recs =
      [(py ''a.pdf'', example_sha256 vortex_bytes), (py ''ab.pdf'', example_sha256 tsunami_bytes),
       (py ''B.pdf'', example_sha256 vortex_bytes)]"
    by (simp add: rel mixed_sorted) (simp add: example_env_def)
  have n: "map file_name recs = [py ''a.pdf'', py ''ab.pdf'', py ''B.pdf'']"
    using arg_cong [OF rel', of "map fst"] by (simp add: comp_def)
  have h: "map sha256 recs = [example_sha256 vortex_bytes, example_sha256 tsunami_bytes,
                              example_sha256 vortex_bytes]"
    using arg_cong [OF rel', of "map snd"] by (simp add: comp_def)
  have lt: "lower (py ''a.pdf'') < lower (py ''ab.pdf'')"
    by (simp add: py_def lower_def lower_cp_def)
  from bm mixed_unique [OF n h] lt
  have "build_manifest example_env [py ''repo'', py ''papers''] [py ''repo'', py ''out'']
       [py ''repo''] mixed_case_listing start_fs = (Inr (all, unique), s') \<and>
     map paper_id (papers unique) = [py ''paper_001_8a59baca'', py ''paper_002_bee2a6c3''] \<and>
     map canonical_file_name (papers unique) = [py ''ab.pdf'', py ''a.pdf''] \<and>
     map alias_file_names (papers unique) = [[py ''ab.pdf''], [py ''a.pdf'', py ''B.pdf'']] \<and>
     lower (py ''a.pdf'') < lower (py ''ab.pdf'')"
    by (simp add: pap)
  then show ?thesis by (intro exI)
qed

subsection \<open>The manifest: effects on the file system\<close>

lemma under_child [simp]: "under d (d @ [x])"
  by (simp add: under_def)


lemma not_under_sibling: "x \<noteq> y \<Longrightarrow> \<not> under (d @ [x]) (d @ [y])"
  by (simp add: under_def)

lemma ensure_dir_files [simp]: "files (ensure_dir p s) = files s"
  by (simp add: ensure_dir_def)

lemma ensure_dir_self: "p \<in> dirs (ensure_dir p s)"
  by (auto simp: ensure_dir_def image_iff intro!: bexI [of _ "length p"])








subsection \<open>A missing papers directory\<close>

lemma ensure_dir_dirs_iff:
  "p \<in> dirs (ensure_dir d s) \<longleftrightarrow> p \<in> dirs s \<or> (under p d)"
proof -
  have "p \<in> set (map (\<lambda>n. take n d) [0 ..< Suc (length d)]) \<longleftrightarrow> under p d"
  proof
    assume "p \<in> set (map (\<lambda>n. take n d) [0 ..< Suc (length d)])"
    then have "\<exists>n \<le> length d. p = take n d"
      by (simp only: set_map set_upt image_iff) (metis atLeastLessThan_iff less_Suc_eq_le)
    then obtain n where "n \<le> length d" "p = take n d" by blast
    then show "under p d" by (simp add: under_def min_def)
  next
    assume "under p d"
    then have t: "take (length p) d = p" by (simp add: under_def)
    have "length (take (length p) d) = length p" by (simp only: t)
    then have "length p \<le> length d" by simp
    then have "length p \<in> set [0 ..< Suc (length d)]"
      by (simp only: set_upt atLeastLessThan_iff less_Suc_eq_le) simp
    then have "(\<lambda>n. take n d) (length p) \<in> (\<lambda>n. take n d) ` set [0 ..< Suc (length d)]"
      by (rule imageI)
    then show "p \<in> set (map (\<lambda>n. take n d) [0 ..< Suc (length d)])"
      by (simp only: set_map t)
  qed
  then show ?thesis by (auto simp: ensure_dir_def)
qed

lemma mkdir_blocked_iff: "mkdir_blocked s p \<longleftrightarrow> (\<exists>q. under q p \<and> q \<in> files s)"
proof -
  have "mkdir_blocked s p \<longleftrightarrow>
          (\<exists>q. q \<in> dirs (ensure_dir p \<lparr>dirs = {}, files = {}\<rparr>) \<and> q \<in> files s)"
    by (auto simp: mkdir_blocked_def ensure_dir_def list_ex_iff)
  then show ?thesis by (simp add: ensure_dir_dirs_iff)
qed

lemma main_blocked:
  assumes "mkdir_blocked s out_dir"
  shows "main e papers_dir out_dir rr listing s = (Inl OSError, s)"
  using assms by (simp add: main_def)

lemma main_aborts:
  assumes "\<not> path_exists s papers_dir" "\<not> under papers_dir out_dir"
      and "\<not> mkdir_blocked s out_dir"
  shows "main e papers_dir out_dir rr listing s =
     (Inl (SystemExit (py ''papers directory does not exist: '' @ str_path papers_dir)),
      ensure_dir out_dir s)"
  using assms by (simp add: main_def Let_def path_exists_def ensure_dir_dirs_iff)

text \<open>
  C5, as the code has it. When the papers directory does not exist (and the output directory
  does not lie inside it), \<open>main\<close> first creates the output directory. When the output
  path or one of its ancestors is a regular file, that call raises and nothing changes.
  Otherwise the output directory is created with its missing ancestors, and then \<open>main\<close>
  aborts with \<open>SystemExit\<close>, before \<open>build_manifest\<close> runs. In both cases no file is
  written, and the only directories added are the output directory and its ancestors; no
  staging directory is created.
\<close>

theorem main_missing_papers_dir:
  assumes "\<not> path_exists s papers_dir" "\<not> under papers_dir out_dir"
  shows "main e papers_dir out_dir rr listing s =
           (if mkdir_blocked s out_dir then (Inl OSError, s)
            else (Inl (SystemExit (py ''papers directory does not exist: '' @
                         str_path papers_dir)),
                  ensure_dir out_dir s)) \<and>
         files (snd (main e papers_dir out_dir rr listing s)) = files s \<and>
         (\<forall>p. p \<in> dirs (snd (main e papers_dir out_dir rr listing s)) \<longleftrightarrow>
              p \<in> dirs s \<or> \<not> mkdir_blocked s out_dir \<and> under p out_dir)"
proof (cases "mkdir_blocked s out_dir")
  case True
  then show ?thesis by (simp add: main_blocked)
next
  case False
  then show ?thesis using main_aborts [OF assms False] by (simp add: ensure_dir_dirs_iff)
qed

lemma start_fs_missing:
  "\<not> path_exists start_fs [py ''repo'', py ''Research Papers'']"
  "\<not> under [py ''repo'', py ''Research Papers''] [py ''repo'', py ''out'']"
  "[py ''repo'', py ''out''] \<notin> dirs start_fs"
  by (simp_all add: path_exists_def start_fs_def under_def py_def)

lemma start_fs_not_blocked: "\<not> mkdir_blocked start_fs p"
  by (simp add: mkdir_blocked_def start_fs_def list_ex_iff)

theorem main_missing_papers_dir_witness:
  "\<not> mkdir_blocked start_fs [py ''repo'', py ''out''] \<and>
   main example_env [py ''repo'', py ''Research Papers''] [py ''repo'', py ''out''] [py ''repo'']
       [] start_fs =
     (Inl (SystemExit (py ''papers directory does not exist: '' @
             str_path [py ''repo'', py ''Research Papers''])),
      ensure_dir [py ''repo'', py ''out''] start_fs) \<and>
   files (snd (main example_env [py ''repo'', py ''Research Papers''] [py ''repo'', py ''out'']
       [py ''repo''] [] start_fs)) = files start_fs"
proof -
  note t = main_missing_papers_dir [OF start_fs_missing(1) start_fs_missing(2),
      of example_env "[py ''repo'']" "[]"]
  from t have "main example_env [py ''repo'', py ''Research Papers''] [py ''repo'', py ''out'']
       [py ''repo''] [] start_fs =
     (if mkdir_blocked start_fs [py ''repo'', py ''out''] then (Inl OSError, start_fs)
      else (Inl (SystemExit (py ''papers directory does not exist: '' @
               str_path [py ''repo'', py ''Research Papers''])),
            ensure_dir [py ''repo'', py ''out''] start_fs))"
    by (rule conjunct1)
  then have a: "main example_env [py ''repo'', py ''Research Papers''] [py ''repo'', py ''out'']
       [py ''repo''] [] start_fs =
     (Inl (SystemExit (py ''papers directory does not exist: '' @
             str_path [py ''repo'', py ''Research Papers''])),
      ensure_dir [py ''repo'', py ''out''] start_fs)"
    by (simp only: start_fs_not_blocked if_False)
  from t have b: "files (snd (main example_env [py ''repo'', py ''Research Papers'']
       [py ''repo'', py ''out''] [py ''repo''] [] start_fs)) = files start_fs"
    by (elim conjE)
  from start_fs_not_blocked a b show ?thesis by (intro conjI)
qed

text \<open>
  The claim C5 as stated fails: with a missing papers directory the run aborts, but the output
  directory, which did not exist before, exists afterwards.
\<close>

theorem main_creates_out_dir:
  "\<not> path_exists start_fs [py ''repo'', py ''Research Papers''] \<and>
   [py ''repo'', py ''out''] \<notin> dirs start_fs \<and>
   fst (main example_env [py ''repo'', py ''Research Papers''] [py ''repo'', py ''out'']
          [py ''repo''] [] start_fs) =
     Inl (SystemExit (py ''papers directory does not exist: '' @
             str_path [py ''repo'', py ''Research Papers''])) \<and>
   [py ''repo'', py ''out''] \<in> dirs (snd (main example_env [py ''repo'', py ''Research Papers'']
          [py ''repo'', py ''out''] [py ''repo''] [] start_fs))"
  using start_fs_missing
  by (simp add: main_aborts [OF start_fs_missing(1) start_fs_missing(2) start_fs_not_blocked]
      ensure_dir_self)

subsection \<open>The extraction run: text and figures of one paper\<close>















subsection \<open>The extraction run: all papers of a manifest\<close>














subsection \<open>Failed extractions and timeouts\<close>









subsection \<open>Temporary and staging directories\<close>






subsection \<open>The corpus document and the clock\<close>

text \<open>
  C3, as the code has it. The corpus document is determined by the manifest, the assets and
  the two paths, except for its field \<open>generated_at_utc\<close>, which is the reading of the
  clock: the document of a second run is the document of the first run with that field
  replaced. Two runs on the same input that read the same time give the same document.
\<close>

theorem summarize_papers_clock:
  "summarize_papers e2 abstract_search manifest_path assets_dir m assets =
     (summarize_papers e1 abstract_search manifest_path assets_dir m assets)
       \<lparr>corpus_generated_at_utc := utc_now_iso e2 0\<rparr>"
  by (simp add: summarize_papers_def Let_def)

theorem summarize_papers_clock_witness:
  "summarize_papers later_env (\<lambda>t. None) (py ''/repo/out/manifest_unique.json'') (py ''/repo/out'')
       example_manifest example_assets =
     (summarize_papers example_env (\<lambda>t. None) (py ''/repo/out/manifest_unique.json'')
        (py ''/repo/out'') example_manifest example_assets)
       \<lparr>corpus_generated_at_utc := py ''2026-02-11T09:00:01Z''\<rparr>"
  using summarize_papers_clock [of later_env "\<lambda>t. None" "py ''/repo/out/manifest_unique.json''"
      "py ''/repo/out''" example_manifest example_assets example_env]
  by (simp add: later_env_def)

text \<open>
  The claim C3 as stated fails: two runs on the same manifest and assets, one second apart,
  give different documents.
\<close>

theorem summarize_papers_run_dependent:
  "summarize_papers example_env (\<lambda>t. None) (py ''/repo/out/manifest_unique.json'') (py ''/repo/out'')
       example_manifest example_assets \<noteq>
   summarize_papers later_env (\<lambda>t. None) (py ''/repo/out/manifest_unique.json'') (py ''/repo/out'')
       example_manifest example_assets"
proof
  assume "summarize_papers example_env (\<lambda>t. None) (py ''/repo/out/manifest_unique.json'')
       (py ''/repo/out'') example_manifest example_assets =
   summarize_papers later_env (\<lambda>t. None) (py ''/repo/out/manifest_unique.json'') (py ''/repo/out'')
       example_manifest example_assets"
  then have "corpus_generated_at_utc (summarize_papers example_env (\<lambda>t. None)
       (py ''/repo/out/manifest_unique.json'') (py ''/repo/out'') example_manifest example_assets) =
     corpus_generated_at_utc (summarize_papers later_env (\<lambda>t. None)
       (py ''/repo/out/manifest_unique.json'') (py ''/repo/out'') example_manifest example_assets)"
    by (rule arg_cong)
  then have "utc_now_iso example_env 0 = utc_now_iso later_env 0"
    by (simp add: summarize_papers_def Let_def)
  then show False by (simp add: later_env_def example_env_def py_def)
qed

subsection \<open>Citation, key equations and evidence of a summary record\<close>


lemma py_or_Some_nonempty: "t \<noteq> [] \<Longrightarrow> py_or (Some t) y \<noteq> []"
  by (simp add: py_or_def)

























end
